theory Spec2Isabelle
  imports Main
begin

section \<open>SDK references\<close>

text \<open>
  A shallow embedding of \<open>sdk/sdk.go\<close>: the sdk module type, the registry of member
  list properties and the six mutators. \<open>sdk.go\<close> calls into the package \<open>android\<close>
  (\<open>SdkRef\<close>, \<open>SdkRefs\<close>, \<open>ParseSdkRef\<close>, the \<open>SdkAware\<close> contract) and into the
  host that owns the module graph. What it calls there is modelled from the
  specification, each piece marked as such; everything else follows \<open>sdk.go\<close>.
\<close>

record SdkRef =
  Name :: string
  Version :: string

type_synonym SdkRefs = "SdkRef list"

text \<open>Modelled from the spec: \<open>SdkRef.Unversioned\<close> of package \<open>android\<close> is missing;
  in the spec's data model an empty version means unversioned (in development).\<close>

definition Unversioned :: "SdkRef \<Rightarrow> bool" where
  "Unversioned s = (Version s = [])"

text \<open>Modelled from the spec: \<open>SdkRefs.Contains\<close> of package \<open>android\<close> is missing;
  the spec describes "a containment/equality test against a set of references".
  \<open>sdk.go\<close> takes \<open>len\<close> of an \<open>SdkRefs\<close>, so it is a sequence.\<close>

definition Contains :: "SdkRefs \<Rightarrow> SdkRef \<Rightarrow> bool" where
  "Contains refs s = (s \<in> set refs)"

text \<open>Modelled from the spec: \<open>ParseSdkRef\<close> of package \<open>android\<close> is missing. The
  spec calls it the reference parser that splits a name into name and version; the
  error messages of \<open>sdk.go\<close> give the syntax \<open>name@version\<close>. The name is the
  text before the first separator, the version the text after it (empty when there
  is no separator).\<close>

definition SdkVersionSeparator :: char where
  "SdkVersionSeparator = CHR ''@''"

definition ParseSdkRef :: "string \<Rightarrow> SdkRef" where
  "ParseSdkRef str =
     \<lparr>Name = takeWhile (\<lambda>c. c \<noteq> SdkVersionSeparator) str,
      Version = drop 1 (dropWhile (\<lambda>c. c \<noteq> SdkVersionSeparator) str)\<rparr>"

section \<open>The SdkAware contract\<close>

text \<open>Modelled from the spec: the base implementation of \<open>android.SdkAware\<close> is
  missing. The spec's data model gives an SDK-aware node the attributes
  containingSdk (unset until assigned), memberName and requiredSdks, and the
  operations report/record containing SDK, report/record (by union) required SDK set
  and report member name.\<close>

record SdkBase =
  containingSdk :: "SdkRef option"
  requiredSdks :: SdkRefs
  sdk_member_name :: string

text \<open>Modelled from the spec: \<open>MakeMemberOf\<close> records "this dependent node's
  containing SDK = this SdkNode's reference".\<close>

definition MakeMemberOf :: "SdkBase \<Rightarrow> SdkRef \<Rightarrow> SdkBase" where
  "MakeMemberOf b s = b\<lparr>containingSdk := Some s\<rparr>"

text \<open>Modelled from the spec: \<open>IsInAnySdk\<close> tells whether the node "has been assigned
  to some SDK".\<close>

definition IsInAnySdk :: "SdkBase \<Rightarrow> bool" where
  "IsInAnySdk b = (containingSdk b \<noteq> None)"

text \<open>Modelled from the spec: \<open>ContainingSdk\<close> reports the containing SDK. An unset
  containing SDK reads as the zero value of the Go struct.\<close>

definition ContainingSdk :: "SdkBase \<Rightarrow> SdkRef" where
  "ContainingSdk b =
     (case containingSdk b of Some s \<Rightarrow> s | None \<Rightarrow> \<lparr>Name = [], Version = []\<rparr>)"

text \<open>Modelled from the spec: \<open>MemberName\<close> reports the member name.\<close>

definition MemberName :: "SdkBase \<Rightarrow> string" where
  "MemberName b = sdk_member_name b"

text \<open>Modelled from the spec: \<open>RequiredSdks\<close> reports the required SDK set.\<close>

definition RequiredSdks :: "SdkBase \<Rightarrow> SdkRefs" where
  "RequiredSdks b = requiredSdks b"

text \<open>Modelled from the spec: \<open>BuildWithSdks\<close> is missing; the spec's pass 4 says
  "union the parent's required-SDK set into the dependency's required-SDK set".\<close>

definition BuildWithSdks :: "SdkBase \<Rightarrow> SdkRefs \<Rightarrow> SdkBase" where
  "BuildWithSdks b sdks = b\<lparr>requiredSdks := List.union sdks (requiredSdks b)\<rparr>"

section \<open>The sdk module type\<close>

record sdkProperties =
  Java_header_libs :: "string list"
  Java_libs :: "string list"
  Native_shared_libs :: "string list"
  Stubs_sources :: "string list"
  Snapshot :: bool

type_synonym Path = string
type_synonym OptionalPath = "Path option"

record sdk =
  properties :: sdkProperties
  snapshotFile :: OptionalPath

definition snapshot :: "sdk \<Rightarrow> bool" where
  "snapshot s = Snapshot (properties s)"

section \<open>The module graph\<close>

text \<open>
  Dependency tags. \<open>SdkMemberDependencyTag p\<close> is a pointer to the
  \<open>sdkMemberDependencyTag\<close> object at address \<open>p\<close>; \<open>SdkMemberVesionedDepTag\<close> is
  the value type of \<open>sdk.go\<close> with its fields member and version;
  \<open>DefaultsDepTag\<close> is \<open>android.DefaultsDepTag\<close>; \<open>OtherDepTag\<close> stands for the tags
  of other packages.
\<close>

datatype depTag =
    SdkMemberDependencyTag nat
  | SdkMemberVesionedDepTag string string
  | DefaultsDepTag
  | OtherDepTag nat

text \<open>
  A module of the graph, seen through the type assertions \<open>sdk.go\<close> makes on it:
  \<open>sdkModule\<close> is \<open>Some s\<close> exactly when the module is a \<open>*sdk\<close>; \<open>sdkAware\<close> is
  \<open>Some b\<close> exactly when it implements \<open>android.SdkAware\<close> (whose method set holds
  \<open>RequiredSdks\<close>); \<open>depIsInSameApex\<close> is \<open>Some f\<close> exactly when it has the method
  \<open>DepIsInSameApex\<close>, and \<open>f d\<close> is its answer for the dependency with index \<open>d\<close>;
  \<open>ownRequiredSdks\<close> is \<open>Some r\<close> exactly when the module does not implement
  \<open>android.SdkAware\<close> but has a method \<open>RequiredSdks\<close> of its own, which returns \<open>r\<close>.
\<close>

record module =
  moduleName :: string
  variant :: string
  sdkModule :: "sdk option"
  sdkAware :: "SdkBase option"
  depIsInSameApex :: "(nat \<Rightarrow> bool) option"
  ownRequiredSdks :: "SdkRefs option"

text \<open>The method \<open>RequiredSdks\<close> of a module, when its type has one: that of the
  \<open>SdkAware\<close> contract, or its own.\<close>

definition requiredSdksMethod :: "module \<Rightarrow> SdkRefs option" where
  "requiredSdksMethod m =
     (case sdkAware m of Some b \<Rightarrow> Some (RequiredSdks b) | None \<Rightarrow> ownRequiredSdks m)"

record edge =
  src :: nat
  tag :: depTag
  dst :: nat

text \<open>Modelled from the spec: \<open>PropertyErrorf\<close> and \<open>ModuleErrorf\<close> of the mutator
  context are missing. The spec: errors "are accumulated as user-facing diagnostics
  attributed to a specific node and property", none stops the run. A diagnostic keeps
  the format string and its operands as the source passes them; the graph keeps each
  with the index of the module it is reported on.\<close>

datatype fmtArg = StrArg string | SdkRefArg SdkRef | SdkRefsArg SdkRefs

datatype diag =
    PropertyError string string "fmtArg list"
  | ModuleError string "fmtArg list"

record graph =
  modules :: "module list"
  edges :: "edge list"
  errors :: "(nat \<times> diag) list"

text \<open>Modelled from the spec: \<open>VisitDirectDeps\<close> of the mutator context is missing;
  the passes of the spec "visit each direct dependency". These are the edges it walks
  for module \<open>i\<close>, in the order of the graph.\<close>

definition directDepEdges :: "graph \<Rightarrow> nat \<Rightarrow> edge list" where
  "directDepEdges g i = filter (\<lambda>e. src e = i) (edges g)"

definition directDeps :: "graph \<Rightarrow> nat \<Rightarrow> nat list" where
  "directDeps g i = map dst (directDepEdges g i)"

section \<open>Step 6: requirement check\<close>

definition violationFmt :: string where
  "violationFmt = ''depends on %q (in SDK %q) that isn't part of the required SDKs: %v''"

text \<open>The body of the visitor of \<open>sdkRequirementsMutator\<close>, for one edge: the
  diagnostics it reports.\<close>

definition checkDep :: "graph \<Rightarrow> (nat \<Rightarrow> bool) \<Rightarrow> SdkRefs \<Rightarrow> edge \<Rightarrow> diag list" where
  "checkDep g same required e =
     (if tag e = DefaultsDepTag then []
      else (case sdkAware (modules g ! dst e) of
              Some sa \<Rightarrow>
                if \<not> same (dst e) \<and> \<not> Contains required (ContainingSdk sa)
                then [ModuleError violationFmt
                        [StrArg (moduleName (modules g ! dst e)),
                         SdkRefArg (ContainingSdk sa), SdkRefsArg required]]
                else []
            | None \<Rightarrow> []))"

text \<open>The diagnostics \<open>sdkRequirementsMutator\<close> reports when it runs on module \<open>i\<close>.
  The type assertion asks for the two methods \<open>DepIsInSameApex\<close> and \<open>RequiredSdks\<close>
  and for nothing else.\<close>

definition sdkRequirementsMutator :: "graph \<Rightarrow> nat \<Rightarrow> diag list" where
  "sdkRequirementsMutator g i =
     (case depIsInSameApex (modules g ! i) of
        None \<Rightarrow> []
      | Some same \<Rightarrow>
          (case requiredSdksMethod (modules g ! i) of
             None \<Rightarrow> []
           | Some required \<Rightarrow>
               if length required = 0 then []
               else concat (map (checkDep g same required) (directDepEdges g i))))"

section \<open>Step 2: containment recording\<close>

text \<open>
  \<open>strconv.Atoi\<close> of the Go standard library on a platform with 64-bit \<open>int\<close>: an
  optional sign, then at least one decimal digit and nothing else, and a value
  inside the range of \<open>int\<close>. \<open>None\<close> is a non-nil error.
\<close>

definition isDigit :: "char \<Rightarrow> bool" where
  "isDigit c = (c \<in> set ''0123456789'')"

definition digitsValue :: "string \<Rightarrow> int" where
  "digitsValue ds = foldl (\<lambda>n c. n * 10 + (int (of_char c) - 48)) 0 ds"

definition Atoi :: "string \<Rightarrow> int option" where
  "Atoi s =
     (let neg = (s \<noteq> [] \<and> hd s = CHR ''-'');
          ds = (if s \<noteq> [] \<and> (hd s = CHR ''-'' \<or> hd s = CHR ''+'') then tl s else s)
      in if ds = [] \<or> \<not> list_all isDigit ds then None
         else (let v = (if neg then - digitsValue ds else digitsValue ds)
               in if v < - (2 ^ 63) \<or> 2 ^ 63 - 1 < v then None else Some v))"

definition snapshotNameFmt :: string where
  "snapshotNameFmt =
     ''sdk_snapshot should be named as <name>@<version>. Did you manually modify Android.bp?''"

definition sdkNameFmt :: string where
  "sdkNameFmt = ''sdk shouldn't be named as <name>@<version>.''"

definition versionFmt :: string where
  "versionFmt =
     ''version %q is neither a number nor '' @ [CHR 0x22] @ ''current'' @ [CHR 0x22]"

text \<open>The three checks at the head of \<open>memberDepsMutator\<close>. \<open>PropertyErrorf\<close>
  records a diagnostic and returns, so the checks run one after the other.\<close>

definition nameChecks :: "bool \<Rightarrow> SdkRef \<Rightarrow> diag list" where
  "nameChecks isSnapshot mySdkRef =
     (if isSnapshot \<and> Unversioned mySdkRef
      then [PropertyError ''name'' snapshotNameFmt []] else []) @
     (if \<not> isSnapshot \<and> \<not> Unversioned mySdkRef
      then [PropertyError ''name'' sdkNameFmt []] else []) @
     (if Version mySdkRef \<noteq> [] \<and> Version mySdkRef \<noteq> ''current''
      then (case Atoi (Version mySdkRef) of
              None \<Rightarrow> [PropertyError ''name'' versionFmt [StrArg (Version mySdkRef)]]
            | Some _ \<Rightarrow> [])
      else [])"

text \<open>The visitor of \<open>memberDepsMutator\<close>, on the dependency \<open>child\<close>.\<close>

definition makeMember :: "SdkRef \<Rightarrow> module list \<Rightarrow> nat \<Rightarrow> module list" where
  "makeMember mySdkRef ms child =
     (case sdkAware (ms ! child) of
        Some member \<Rightarrow>
          ms[child := (ms ! child)\<lparr>sdkAware := Some (MakeMemberOf member mySdkRef)\<rparr>]
      | None \<Rightarrow> ms)"

definition memberDepsMutator :: "graph \<Rightarrow> nat \<Rightarrow> graph" where
  "memberDepsMutator g i =
     (case sdkModule (modules g ! i) of
        None \<Rightarrow> g
      | Some s \<Rightarrow>
          (let mySdkRef = ParseSdkRef (moduleName (modules g ! i))
           in g\<lparr>modules := foldl (makeMember mySdkRef) (modules g) (directDeps g i),
                errors := errors g @ map (Pair i) (nameChecks (snapshot s) mySdkRef)\<rparr>))"

section \<open>Step 3: inter-version dependencies\<close>

text \<open>Modelled from the spec: \<open>AddReverseDependency\<close> of the host is missing; in
  the spec it creates a reverse dependency edge with the given tag, from the node that
  bears the member name. One call \<open>AddReverseDependency(module, tag, destName)\<close> is kept as the edge it
  asks for, from the module named \<open>destName\<close> to \<open>module\<close>.\<close>

record reverseDep =
  rd_module :: nat
  rd_tag :: depTag
  rd_destName :: string

text \<open>The calls of \<open>AddReverseDependency\<close> that \<open>memberInterVersionMutator\<close> makes on
  module \<open>i\<close>.\<close>

definition memberInterVersionMutator :: "graph \<Rightarrow> nat \<Rightarrow> reverseDep list" where
  "memberInterVersionMutator g i =
     (case sdkAware (modules g ! i) of
        None \<Rightarrow> []
      | Some m \<Rightarrow>
          if IsInAnySdk m then
            (if \<not> Unversioned (ContainingSdk m) then
               (let memberName = MemberName m;
                    tg = SdkMemberVesionedDepTag memberName (Version (ContainingSdk m))
                in [\<lparr>rd_module = i, rd_tag = tg, rd_destName = memberName\<rparr>])
             else [])
          else [])"

section \<open>Step 4: requirement propagation\<close>

text \<open>The visitor of \<open>sdkDepsMutator\<close>, on the dependency \<open>d\<close>.\<close>

definition buildWith :: "SdkRefs \<Rightarrow> module list \<Rightarrow> nat \<Rightarrow> module list" where
  "buildWith required ms d =
     (case sdkAware (ms ! d) of
        Some dep \<Rightarrow> ms[d := (ms ! d)\<lparr>sdkAware := Some (BuildWithSdks dep required)\<rparr>]
      | None \<Rightarrow> ms)"

definition sdkDepsMutator :: "graph \<Rightarrow> nat \<Rightarrow> graph" where
  "sdkDepsMutator g i =
     (case sdkAware (modules g ! i) of
        None \<Rightarrow> g
      | Some m \<Rightarrow>
          (let required = RequiredSdks m
           in if length required > 0
              then g\<lparr>modules := foldl (buildWith required) (modules g) (directDeps g i)\<rparr>
              else g))"

text \<open>The whole pass: the host runs the mutator on the modules in the order
  \<open>order\<close>. A top-down pass visits a module after every module that depends on it.\<close>

definition runSdkDepsMutator :: "graph \<Rightarrow> nat list \<Rightarrow> graph" where
  "runSdkDepsMutator g order = foldl sdkDepsMutator g order"



section \<open>Step 5: dependency replacement\<close>

text \<open>The calls \<open>ReplaceDependencies(name)\<close> that \<open>sdkDepsReplaceMutator\<close> makes on
  module \<open>i\<close>: the list of their arguments.\<close>

definition sdkDepsReplaceMutator :: "graph \<Rightarrow> nat \<Rightarrow> string list" where
  "sdkDepsReplaceMutator g i =
     (case sdkAware (modules g ! i) of
        None \<Rightarrow> []
      | Some m \<Rightarrow>
          if IsInAnySdk m then
            (let sdk = ContainingSdk m
             in if \<not> Unversioned sdk then
                  (if Contains (RequiredSdks m) sdk then [MemberName m] else [])
                else [])
          else [])"

text \<open>Modelled from the spec: a versioned member is "the frozen copy of a member node
  tied to one specific SDK version", that is a node assigned to an SDK whose reference
  has a version; every other node is unversioned (in development).\<close>

definition isVersionedMember :: "module \<Rightarrow> bool" where
  "isVersionedMember m =
     (case sdkAware m of
        Some b \<Rightarrow> IsInAnySdk b \<and> \<not> Unversioned (ContainingSdk b)
      | None \<Rightarrow> False)"

text \<open>Modelled from the spec: \<open>ReplaceDependencies\<close> belongs to the host and is
  missing. The spec has the host "query/replace edges by target name scoped to
  matching build configuration". Pass 5 of the spec replaces the "dependency edges
  elsewhere in the graph that point at the unversioned member with the same name by this
  versioned node", and "only dependents sharing the same build configuration/variant as
  the current node are rewired". So an edge is redirected to the current module when
  its target bears the name, its target is not itself a versioned member, and its
  source has the variant of the current module.\<close>

definition rewire :: "module list \<Rightarrow> nat \<Rightarrow> string \<Rightarrow> edge \<Rightarrow> edge" where
  "rewire ms cur nm e =
     (if moduleName (ms ! dst e) = nm \<and> \<not> isVersionedMember (ms ! dst e) \<and>
         variant (ms ! src e) = variant (ms ! cur)
      then e\<lparr>dst := cur\<rparr> else e)"

definition ReplaceDependencies :: "graph \<Rightarrow> nat \<Rightarrow> string \<Rightarrow> graph" where
  "ReplaceDependencies g cur nm = g\<lparr>edges := map (rewire (modules g) cur nm) (edges g)\<rparr>"

definition replaceStep :: "graph \<Rightarrow> nat \<Rightarrow> graph" where
  "replaceStep g i = foldl (\<lambda>h nm. ReplaceDependencies h i nm) g (sdkDepsReplaceMutator g i)"

definition runSdkDepsReplaceMutator :: "graph \<Rightarrow> nat list \<Rightarrow> graph" where
  "runSdkDepsReplaceMutator g order = foldl replaceStep g order"

text \<open>The modules that ask for a replacement.\<close>

definition replaces :: "graph \<Rightarrow> nat \<Rightarrow> bool" where
  "replaces g i = (sdkDepsReplaceMutator g i \<noteq> [])"

section \<open>The member list registry and step 1\<close>

text \<open>The member types of the packages \<open>cc\<close> and \<open>java\<close> that the registry names.\<close>

datatype SdkMemberType =
    LibrarySdkMemberType
  | HeaderLibrarySdkMemberType
  | ImplLibrarySdkMemberType
  | DroidStubsSdkMemberType

text \<open>
  \<open>sdkMemberListProperties\<close> is a slice of pointers and each tag points back at its
  property, so both kinds of object live in a store: a pointer to a property is its
  index in \<open>listProperties\<close>, a pointer to a tag its index in \<open>tagObjects\<close>, and
  \<open>None\<close> is nil.
\<close>

record sdkMemberListProperty =
  name :: string
  getter :: "sdkProperties \<Rightarrow> string list"
  memberType :: SdkMemberType
  dependencyTag :: "nat option"

record sdkMemberDependencyTag =
  memberListProperty :: nat

record registry =
  listProperties :: "sdkMemberListProperty list"
  tagObjects :: "sdkMemberDependencyTag list"

definition sdkMemberListProperties :: "sdkMemberListProperty list" where
  "sdkMemberListProperties =
     [\<lparr>name = ''native_shared_libs'', getter = Native_shared_libs,
       memberType = LibrarySdkMemberType, dependencyTag = None\<rparr>,
      \<lparr>name = ''java_header_libs'', getter = Java_header_libs,
       memberType = HeaderLibrarySdkMemberType, dependencyTag = None\<rparr>,
      \<lparr>name = ''java_libs'', getter = Java_libs,
       memberType = ImplLibrarySdkMemberType, dependencyTag = None\<rparr>,
      \<lparr>name = ''stubs_sources'', getter = Stubs_sources,
       memberType = DroidStubsSdkMemberType, dependencyTag = None\<rparr>]"

text \<open>The body of the loop of \<open>init\<close> for the property at address \<open>p\<close>: a new tag
  object is allocated and the property is made to point at it.\<close>

definition bindTag :: "registry \<Rightarrow> nat \<Rightarrow> registry" where
  "bindTag r p =
     \<lparr>listProperties =
        (listProperties r)[p := (listProperties r ! p)
                                  \<lparr>dependencyTag := Some (length (tagObjects r))\<rparr>],
      tagObjects = tagObjects r @ [\<lparr>memberListProperty = p\<rparr>]\<rparr>"

definition init :: registry where
  "init = foldl bindTag \<lparr>listProperties = sdkMemberListProperties, tagObjects = []\<rparr>
            [0 ..< length sdkMemberListProperties]"

text \<open>One dependency added in step 1.\<close>

record memberDep =
  md_memberType :: SdkMemberType
  md_tag :: "nat option"
  md_name :: string

text \<open>Modelled from the spec: the member types' \<open>AddDependencies\<close> are missing
  (packages \<open>cc\<close> and \<open>java\<close>). The spec: "create a membership edge from the SdkNode
  to each named node, tagged with that property's bound dependency tag".\<close>

definition AddDependencies :: "SdkMemberType \<Rightarrow> nat option \<Rightarrow> string list \<Rightarrow> memberDep list" where
  "AddDependencies mt tg names =
     map (\<lambda>n. \<lparr>md_memberType = mt, md_tag = tg, md_name = n\<rparr>) names"

definition memberMutator :: "registry \<Rightarrow> graph \<Rightarrow> nat \<Rightarrow> memberDep list" where
  "memberMutator r g i =
     (case sdkModule (modules g ! i) of
        None \<Rightarrow> []
      | Some m \<Rightarrow>
          concat (map (\<lambda>memberListProperty.
                         (let names = getter memberListProperty (properties m);
                              tg = dependencyTag memberListProperty
                          in AddDependencies (memberType memberListProperty) tg names))
                    (listProperties r)))"

section \<open>Factories and the snapshot output\<close>

text \<open>The load hook of \<open>ModuleFactory\<close> appends \<open>compile_multilib\<close> to the base
  properties of the module, which are not part of \<open>sdkProperties\<close>.\<close>

definition ModuleFactory :: sdk where
  "ModuleFactory =
     \<lparr>properties = \<lparr>Java_header_libs = [], Java_libs = [], Native_shared_libs = [],
                     Stubs_sources = [], Snapshot = False\<rparr>,
      snapshotFile = None\<rparr>"

definition SnapshotModuleFactory :: sdk where
  "SnapshotModuleFactory =
     (let s = ModuleFactory in s\<lparr>properties := (properties s)\<lparr>Snapshot := True\<rparr>\<rparr>)"

text \<open>Modelled from the spec: the property loader of the host is missing. The spec
  gives an sdk the declared property surface "named member lists per member kind, each
  a flat ordered list of names", and has the snapshot flag "set once at construction";
  \<open>sdk.go\<close> tags the field \<open>blueprint:"mutated"\<close>. The loader fills the property
  struct from the assignments of the build file by property name, and refuses an
  assignment to the mutated field, a name that is no field, and a value of the wrong
  type.\<close>

datatype bpValue = BpList "string list" | BpBool bool

datatype unpackError = MutatedField string | UnrecognizedProperty string | TypeMismatch string

fun setProperty :: "sdkProperties \<Rightarrow> string \<times> bpValue \<Rightarrow> unpackError + sdkProperties" where
  "setProperty ps (k, v) =
     (if k = ''snapshot'' then Inl (MutatedField k)
      else if k \<notin> set [''java_header_libs'', ''java_libs'', ''native_shared_libs'',
                        ''stubs_sources'']
      then Inl (UnrecognizedProperty k)
      else (case v of
              BpBool _ \<Rightarrow> Inl (TypeMismatch k)
            | BpList xs \<Rightarrow>
                Inr (if k = ''java_header_libs'' then ps\<lparr>Java_header_libs := xs\<rparr>
                     else if k = ''java_libs'' then ps\<lparr>Java_libs := xs\<rparr>
                     else if k = ''native_shared_libs'' then ps\<lparr>Native_shared_libs := xs\<rparr>
                     else ps\<lparr>Stubs_sources := xs\<rparr>)))"

fun unpackProperties :: "sdkProperties \<Rightarrow> (string \<times> bpValue) list \<Rightarrow> unpackError + sdkProperties" where
  "unpackProperties ps [] = Inr ps"
| "unpackProperties ps (kv # rest) =
     (case setProperty ps kv of Inl e \<Rightarrow> Inl e | Inr ps' \<Rightarrow> unpackProperties ps' rest)"

definition loadModule :: "sdk \<Rightarrow> (string \<times> bpValue) list \<Rightarrow> unpackError + sdk" where
  "loadModule s bp =
     (case unpackProperties (properties s) bp of
        Inl e \<Rightarrow> Inl e
      | Inr ps \<Rightarrow> Inr (s\<lparr>properties := ps\<rparr>))"

text \<open>Modelled from the spec: \<open>android.OptionalPathForPath\<close> is missing; the path
  handed over by \<open>buildSnapshot\<close> is the path of the built snapshot artifact, a valid
  optional path.\<close>

definition OptionalPathForPath :: "Path \<Rightarrow> OptionalPath" where
  "OptionalPathForPath p = Some p"

definition Valid :: "OptionalPath \<Rightarrow> bool" where
  "Valid p = (p \<noteq> None)"

text \<open>\<open>buildSnapshot\<close> (the serialisation of the snapshot) is a parameter: the path
  it returns for the module.\<close>

definition GenerateAndroidBuildActions :: "(sdk \<Rightarrow> Path) \<Rightarrow> sdk \<Rightarrow> sdk" where
  "GenerateAndroidBuildActions buildSnapshot s =
     (if \<not> snapshot s then s\<lparr>snapshotFile := OptionalPathForPath (buildSnapshot s)\<rparr>
      else s)"

text \<open>\<open>ExtraFooters\<close> holds, for each footer function, the lines it writes; the
  footer of \<open>sdk.go\<close> ignores its arguments.\<close>

record AndroidMkEntries =
  Class :: string
  OutputFile :: OptionalPath
  DistFile :: OptionalPath
  Include :: string
  ExtraFooters :: "string list list"

definition emptyAndroidMkEntries :: AndroidMkEntries where
  "emptyAndroidMkEntries =
     \<lparr>Class = [], OutputFile = None, DistFile = None, Include = [], ExtraFooters = []\<rparr>"

text \<open>\<open>fmt.Fprintln\<close> puts a space between its operands; \<open>String\<close> of an
  optional path is the path, or the empty string when it is not valid.\<close>

definition String_of :: "OptionalPath \<Rightarrow> string" where
  "String_of p = (case p of Some x \<Rightarrow> x | None \<Rightarrow> [])"

definition AndroidMkEntries_of :: "string \<Rightarrow> sdk \<Rightarrow> AndroidMkEntries" where
  "AndroidMkEntries_of nm s =
     (if \<not> Valid (snapshotFile s) then emptyAndroidMkEntries
      else \<lparr>Class = ''FAKE'', OutputFile = snapshotFile s, DistFile = snapshotFile s,
            Include = ''$(BUILD_PHONY_PACKAGE)'',
            ExtraFooters =
              [[''.PHONY:'' @ '' '' @ nm,
                (nm @ '':'') @ '' '' @ String_of (snapshotFile s)]]\<rparr>)"

section \<open>Scenarios\<close>

text \<open>Scenario D: a consumer that requires version 11 of mysdk and depends, outside its
  package, on a member of version 12.\<close>

definition scenarioD :: graph where
  "scenarioD =
     \<lparr>modules =
        [\<lparr>moduleName = ''myapex'', variant = ''android_common'', sdkModule = None,
          sdkAware = Some \<lparr>containingSdk = None,
                           requiredSdks = [\<lparr>Name = ''mysdk'', Version = ''11''\<rparr>],
                           sdk_member_name = []\<rparr>,
          depIsInSameApex = Some (\<lambda>d. False),
          ownRequiredSdks = None\<rparr>,
         \<lparr>moduleName = ''libfoo'', variant = ''android_common'', sdkModule = None,
          sdkAware = Some \<lparr>containingSdk = Some \<lparr>Name = ''mysdk'', Version = ''12''\<rparr>,
                           requiredSdks = [], sdk_member_name = ''libfoo''\<rparr>,
          depIsInSameApex = None,
          ownRequiredSdks = None\<rparr>],
      edges = [\<lparr>src = 0, tag = OtherDepTag 0, dst = 1\<rparr>],
      errors = []\<rparr>"

text \<open>The same dependency, under a consumer that has the two methods without being
  SDK-aware.\<close>

definition plainConsumer :: graph where
  "plainConsumer =
     \<lparr>modules =
        [\<lparr>moduleName = ''mybundle'', variant = ''android_common'', sdkModule = None,
          sdkAware = None, depIsInSameApex = Some (\<lambda>d. False),
          ownRequiredSdks = Some [\<lparr>Name = ''mysdk'', Version = ''11''\<rparr>]\<rparr>,
         \<lparr>moduleName = ''libfoo'', variant = ''android_common'', sdkModule = None,
          sdkAware = Some \<lparr>containingSdk = Some \<lparr>Name = ''mysdk'', Version = ''12''\<rparr>,
                           requiredSdks = [], sdk_member_name = ''libfoo''\<rparr>,
          depIsInSameApex = None, ownRequiredSdks = None\<rparr>],
      edges = [\<lparr>src = 0, tag = OtherDepTag 0, dst = 1\<rparr>],
      errors = []\<rparr>"

text \<open>The diagnostics a step has added to the graph.\<close>

definition newErrors :: "graph \<Rightarrow> graph \<Rightarrow> (nat \<times> diag) list" where
  "newErrors g g' = drop (length (errors g)) (errors g')"

text \<open>The condition for a name error in the wording of the specification: "a
  non-negative integer literal" is a non-empty sequence of decimal digits.\<close>

definition nonNegIntLiteral :: "string \<Rightarrow> bool" where
  "nonNegIntLiteral v = (v \<noteq> [] \<and> list_all isDigit v)"

definition specNameError :: "bool \<Rightarrow> SdkRef \<Rightarrow> bool" where
  "specNameError isSnapshot r =
     ((isSnapshot \<and> Unversioned r) \<or> (\<not> isSnapshot \<and> \<not> Unversioned r) \<or>
      (Version r \<noteq> [] \<and> Version r \<noteq> ''current'' \<and> \<not> nonNegIntLiteral (Version r)))"

text \<open>An sdk module with the given name and snapshot flag and no members listed.\<close>

definition sdkNamed :: "string \<Rightarrow> bool \<Rightarrow> module" where
  "sdkNamed nm snap =
     \<lparr>moduleName = nm, variant = ''android_common'',
      sdkModule = Some \<lparr>properties = \<lparr>Java_header_libs = [], Java_libs = [],
                                      Native_shared_libs = [], Stubs_sources = [],
                                      Snapshot = snap\<rparr>,
                        snapshotFile = None\<rparr>,
      sdkAware = None, depIsInSameApex = None,
          ownRequiredSdks = None\<rparr>"

text \<open>An SDK-aware module that is in no SDK yet and has no required SDKs.\<close>

definition memberNamed :: "string \<Rightarrow> module" where
  "memberNamed nm =
     \<lparr>moduleName = nm, variant = ''android_common'', sdkModule = None,
      sdkAware = Some \<lparr>containingSdk = None, requiredSdks = [], sdk_member_name = nm\<rparr>,
      depIsInSameApex = None,
          ownRequiredSdks = None\<rparr>"

text \<open>A snapshot whose version carries a sign.\<close>

definition signedSnapshot :: graph where
  "signedSnapshot = \<lparr>modules = [sdkNamed ''mysdk@-5'' True], edges = [], errors = []\<rparr>"

text \<open>A well-formed snapshot.\<close>

definition goodSnapshot :: graph where
  "goodSnapshot = \<lparr>modules = [sdkNamed ''mysdk@11'' True], edges = [], errors = []\<rparr>"

text \<open>An sdk with a direct dependency whose edge carries a tag of another package.\<close>

definition otherTagged :: graph where
  "otherTagged =
     \<lparr>modules = [sdkNamed ''mysdk'' False, memberNamed ''libbar''],
      edges = [\<lparr>src = 0, tag = OtherDepTag 0, dst = 1\<rparr>], errors = []\<rparr>"

text \<open>Scenario B: an sdk that is no snapshot, named with a version, with one member.\<close>

definition scenarioB :: graph where
  "scenarioB =
     \<lparr>modules = [sdkNamed ''mysdk@5'' False, memberNamed ''libfoo''],
      edges = [\<lparr>src = 0, tag = SdkMemberDependencyTag 0, dst = 1\<rparr>], errors = []\<rparr>"

text \<open>What the visitor of \<open>memberDepsMutator\<close> does to one module.\<close>

definition memberOf :: "SdkRef \<Rightarrow> module \<Rightarrow> module" where
  "memberOf r m =
     (case sdkAware m of Some b \<Rightarrow> m\<lparr>sdkAware := Some (MakeMemberOf b r)\<rparr> | None \<Rightarrow> m)"

text \<open>What one run of \<open>sdkDepsReplaceMutator\<close> on module \<open>i\<close>, with the replacements it
  asks for, does to a single edge.\<close>

definition edgeStep :: "graph \<Rightarrow> nat \<Rightarrow> edge \<Rightarrow> edge" where
  "edgeStep g i e = foldl (\<lambda>e' nm. rewire (modules g) i nm e') e (sdkDepsReplaceMutator g i)"

text \<open>A frozen member: the module \<open>nm\<close> stands for the member \<open>member\<close> in the SDK \<open>s\<close>,
  and is to be built with the SDKs \<open>req\<close>.\<close>

definition versionedMember :: "string \<Rightarrow> string \<Rightarrow> SdkRef \<Rightarrow> SdkRefs \<Rightarrow> module" where
  "versionedMember nm member s req =
     \<lparr>moduleName = nm, variant = ''android_common'', sdkModule = None,
      sdkAware = Some \<lparr>containingSdk = Some s, requiredSdks = req, sdk_member_name = member\<rparr>,
      depIsInSameApex = None,
          ownRequiredSdks = None\<rparr>"

definition mysdk11 :: SdkRef where
  "mysdk11 = \<lparr>Name = ''mysdk'', Version = ''11''\<rparr>"

text \<open>Scenario A: \<open>libfoo\<close> in development, its frozen copy of version 11 of mysdk, an
  apex variant built with that version and one (of another variant) built with no SDK;
  both depend on \<open>libfoo\<close>.\<close>

definition scenarioA :: graph where
  "scenarioA =
     \<lparr>modules =
        [memberNamed ''libfoo'',
         versionedMember ''mysdk_libfoo@11'' ''libfoo'' mysdk11 [mysdk11],
         \<lparr>moduleName = ''myapex'', variant = ''android_common'', sdkModule = None,
          sdkAware = Some \<lparr>containingSdk = None, requiredSdks = [mysdk11],
                           sdk_member_name = []\<rparr>,
          depIsInSameApex = Some (\<lambda>d. True),
          ownRequiredSdks = None\<rparr>,
         \<lparr>moduleName = ''otherapex'', variant = ''android_common_other'', sdkModule = None,
          sdkAware = Some \<lparr>containingSdk = None, requiredSdks = [], sdk_member_name = []\<rparr>,
          depIsInSameApex = Some (\<lambda>d. True),
          ownRequiredSdks = None\<rparr>],
      edges = [\<lparr>src = 2, tag = OtherDepTag 0, dst = 0\<rparr>,
               \<lparr>src = 3, tag = OtherDepTag 0, dst = 0\<rparr>],
      errors = []\<rparr>"

text \<open>A chain: \<open>libbar\<close> is the frozen copy of \<open>libfoo\<close> and \<open>libbaz\<close> is the frozen copy
  of \<open>libbar\<close>, each required in its own SDK; \<open>myapex\<close> depends on \<open>libfoo\<close>.\<close>

definition chained :: graph where
  "chained =
     \<lparr>modules =
        [memberNamed ''libfoo'',
         versionedMember ''libbar'' ''libfoo'' mysdk11 [mysdk11],
         versionedMember ''libbaz'' ''libbar'' \<lparr>Name = ''othersdk'', Version = ''1''\<rparr>
           [\<lparr>Name = ''othersdk'', Version = ''1''\<rparr>],
         \<lparr>moduleName = ''myapex'', variant = ''android_common'', sdkModule = None,
          sdkAware = None, depIsInSameApex = None,
          ownRequiredSdks = None\<rparr>],
      edges = [\<lparr>src = 3, tag = OtherDepTag 0, dst = 0\<rparr>],
      errors = []\<rparr>"

text \<open>What the visitor of \<open>sdkDepsMutator\<close> does to one module.\<close>

definition built :: "SdkRefs \<Rightarrow> module \<Rightarrow> module" where
  "built required m =
     (case sdkAware m of
        Some dep \<Rightarrow> m\<lparr>sdkAware := Some (BuildWithSdks dep required)\<rparr>
      | None \<Rightarrow> m)"


text \<open>A build file for an sdk with one native library, and the path a snapshot is
  written to.\<close>

definition mysdkBp :: "(string \<times> bpValue) list" where
  "mysdkBp = [(''native_shared_libs'', BpList [''libfoo''])]"

definition mysdkZip :: "sdk \<Rightarrow> Path" where
  "mysdkZip s = ''out/soong/mysdk-current.zip''"

text \<open>An sdk that lists a native library and two java libraries.\<close>

definition listed :: graph where
  "listed =
     \<lparr>modules =
        [\<lparr>moduleName = ''mysdk'', variant = ''android_common'',
          sdkModule = Some \<lparr>properties = \<lparr>Java_header_libs = [], Java_libs = [''a'', ''b''],
                                          Native_shared_libs = [''libfoo''],
                                          Stubs_sources = [], Snapshot = False\<rparr>,
                            snapshotFile = None\<rparr>,
          sdkAware = None, depIsInSameApex = None,
          ownRequiredSdks = None\<rparr>],
      edges = [], errors = []\<rparr>"

chapter \<open>Verification\<close>

section \<open>Step 6 reports exactly the violations\<close>

lemma checkDep_reports:
  assumes "tag e \<noteq> DefaultsDepTag" "sdkAware (modules g ! dst e) = Some sa"
    "\<not> same (dst e)" "\<not> Contains required (ContainingSdk sa)"
  shows "checkDep g same required e =
           [ModuleError violationFmt
              [StrArg (moduleName (modules g ! dst e)), SdkRefArg (ContainingSdk sa),
               SdkRefsArg required]]"
  using assms by (simp add: checkDep_def)

lemma checkDep_origin:
  assumes "err \<in> set (checkDep g same required e)"
  shows "tag e \<noteq> DefaultsDepTag \<and>
         (\<exists>sa. sdkAware (modules g ! dst e) = Some sa \<and> \<not> same (dst e) \<and>
               \<not> Contains required (ContainingSdk sa) \<and>
               err = ModuleError violationFmt
                       [StrArg (moduleName (modules g ! dst e)),
                        SdkRefArg (ContainingSdk sa), SdkRefsArg required])"
proof (cases "tag e = DefaultsDepTag")
  case True
  with assms show ?thesis by (simp add: checkDep_def)
next
  case False
  show ?thesis
  proof (cases "sdkAware (modules g ! dst e)")
    case None
    with assms False show ?thesis by (simp add: checkDep_def)
  next
    case (Some sa)
    with assms False show ?thesis
      by (simp add: checkDep_def split: if_splits)
  qed
qed

lemma sdkRequirementsMutator_visits:
  assumes "depIsInSameApex (modules g ! i) = Some same"
    "requiredSdksMethod (modules g ! i) = Some required" "required \<noteq> []"
  shows "sdkRequirementsMutator g i =
           concat (map (checkDep g same required) (directDepEdges g i))"
  using assms by (simp add: sdkRequirementsMutator_def)

lemma sdkRequirementsMutator_skips:
  assumes "depIsInSameApex (modules g ! i) = None \<or>
           requiredSdksMethod (modules g ! i) = None \<or>
           requiredSdksMethod (modules g ! i) = Some []"
  shows "sdkRequirementsMutator g i = []"
  using assms by (auto simp: sdkRequirementsMutator_def split: option.splits)

text \<open>
  Claim C1. When \<open>sdkRequirementsMutator\<close> runs on a module that has both
  \<open>DepIsInSameApex\<close> and \<open>RequiredSdks\<close> (SDK-aware or not) and whose required SDKs are
  not empty, then for every direct dependency that is SDK-aware and whose edge is not
  tagged \<open>DefaultsDepTag\<close>: the dependency is in the same apex, or its containing SDK is
  one of the required SDKs, or a module error is reported with the dependency's name, its
  containing SDK and the required SDKs as operands. With an empty required set, or
  without one of the two methods, nothing is reported; and every reported error stems
  from an SDK-aware dependency on an edge that is not a defaults edge.
\<close>

theorem sdkRequirementsMutator_sound:
  fixes g :: graph and i :: nat
  defines "out \<equiv> sdkRequirementsMutator g i"
  shows
   "(\<forall>same required e sa.
       depIsInSameApex (modules g ! i) = Some same \<and>
       requiredSdksMethod (modules g ! i) = Some required \<and>
       required \<noteq> [] \<and> e \<in> set (edges g) \<and> src e = i \<and>
       tag e \<noteq> DefaultsDepTag \<and> sdkAware (modules g ! dst e) = Some sa
       \<longrightarrow> same (dst e) \<or> Contains required (ContainingSdk sa) \<or>
           ModuleError violationFmt
             [StrArg (moduleName (modules g ! dst e)), SdkRefArg (ContainingSdk sa),
              SdkRefsArg required] \<in> set out) \<and>
    (requiredSdksMethod (modules g ! i) = Some [] \<longrightarrow> out = []) \<and>
    (depIsInSameApex (modules g ! i) = None \<or> requiredSdksMethod (modules g ! i) = None
       \<longrightarrow> out = []) \<and>
    (\<forall>err \<in> set out. \<exists>same required e sa.
       depIsInSameApex (modules g ! i) = Some same \<and>
       requiredSdksMethod (modules g ! i) = Some required \<and>
       e \<in> set (edges g) \<and> src e = i \<and> tag e \<noteq> DefaultsDepTag \<and>
       sdkAware (modules g ! dst e) = Some sa \<and> \<not> same (dst e) \<and>
       \<not> Contains required (ContainingSdk sa) \<and>
       err = ModuleError violationFmt
               [StrArg (moduleName (modules g ! dst e)), SdkRefArg (ContainingSdk sa),
                SdkRefsArg required])"
proof (intro conjI allI impI ballI)
  fix same required e sa
  assume h: "depIsInSameApex (modules g ! i) = Some same \<and>
       requiredSdksMethod (modules g ! i) = Some required \<and> required \<noteq> [] \<and>
       e \<in> set (edges g) \<and> src e = i \<and> tag e \<noteq> DefaultsDepTag \<and>
       sdkAware (modules g ! dst e) = Some sa"
  show "same (dst e) \<or> Contains required (ContainingSdk sa) \<or>
        ModuleError violationFmt
          [StrArg (moduleName (modules g ! dst e)), SdkRefArg (ContainingSdk sa),
           SdkRefsArg required] \<in> set out"
  proof (cases "same (dst e) \<or> Contains required (ContainingSdk sa)")
    case True
    then show ?thesis by blast
  next
    case False
    from h have visited: "e \<in> set (directDepEdges g i)"
      by (simp add: directDepEdges_def)
    from h False have
      "checkDep g same required e =
         [ModuleError violationFmt
            [StrArg (moduleName (modules g ! dst e)), SdkRefArg (ContainingSdk sa),
             SdkRefsArg required]]"
      by (intro checkDep_reports) simp_all
    with visited h show ?thesis
      unfolding out_def by (force simp: sdkRequirementsMutator_visits)
  qed
next
  assume "requiredSdksMethod (modules g ! i) = Some []"
  then show "out = []"
    unfolding out_def by (intro sdkRequirementsMutator_skips) simp
next
  assume "depIsInSameApex (modules g ! i) = None \<or>
          requiredSdksMethod (modules g ! i) = None"
  then show "out = []"
    unfolding out_def by (intro sdkRequirementsMutator_skips) blast
next
  fix err
  assume err: "err \<in> set out"
  then obtain same where same: "depIsInSameApex (modules g ! i) = Some same"
    unfolding out_def using sdkRequirementsMutator_skips [of g i] by fastforce
  from err obtain required where m: "requiredSdksMethod (modules g ! i) = Some required"
    unfolding out_def using sdkRequirementsMutator_skips [of g i] by fastforce
  from err m have ne: "required \<noteq> []"
    unfolding out_def using sdkRequirementsMutator_skips [of g i] by fastforce
  from err obtain e where e: "e \<in> set (directDepEdges g i)"
      and ine: "err \<in> set (checkDep g same required e)"
    unfolding out_def by (auto simp: sdkRequirementsMutator_visits [OF same m ne])
  from checkDep_origin [OF ine] e same m
  show "\<exists>same required e sa.
       depIsInSameApex (modules g ! i) = Some same \<and>
       requiredSdksMethod (modules g ! i) = Some required \<and>
       e \<in> set (edges g) \<and> src e = i \<and> tag e \<noteq> DefaultsDepTag \<and>
       sdkAware (modules g ! dst e) = Some sa \<and> \<not> same (dst e) \<and>
       \<not> Contains required (ContainingSdk sa) \<and>
       err = ModuleError violationFmt
               [StrArg (moduleName (modules g ! dst e)), SdkRefArg (ContainingSdk sa),
                SdkRefsArg required]"
    by (auto simp: directDepEdges_def)
qed

text \<open>
  The theorem in scenario D, under an SDK-aware consumer and under a consumer that has
  the two methods only: the violation is reported in both.
\<close>

theorem sdkRequirementsMutator_sound_scenarioD:
  "ModuleError violationFmt
     [StrArg ''libfoo'', SdkRefArg \<lparr>Name = ''mysdk'', Version = ''12''\<rparr>,
      SdkRefsArg [\<lparr>Name = ''mysdk'', Version = ''11''\<rparr>]]
   \<in> set (sdkRequirementsMutator scenarioD 0) \<and>
   ModuleError violationFmt
     [StrArg ''libfoo'', SdkRefArg \<lparr>Name = ''mysdk'', Version = ''12''\<rparr>,
      SdkRefsArg [\<lparr>Name = ''mysdk'', Version = ''11''\<rparr>]]
   \<in> set (sdkRequirementsMutator plainConsumer 0)"
proof -
  have "ModuleError violationFmt
     [StrArg ''libfoo'', SdkRefArg \<lparr>Name = ''mysdk'', Version = ''12''\<rparr>,
      SdkRefsArg [\<lparr>Name = ''mysdk'', Version = ''11''\<rparr>]]
   \<in> set (sdkRequirementsMutator scenarioD 0)"
    using sdkRequirementsMutator_sound [of scenarioD 0]
    by (simp add: scenarioD_def requiredSdksMethod_def RequiredSdks_def ContainingSdk_def
        Contains_def)
  moreover have "ModuleError violationFmt
     [StrArg ''libfoo'', SdkRefArg \<lparr>Name = ''mysdk'', Version = ''12''\<rparr>,
      SdkRefsArg [\<lparr>Name = ''mysdk'', Version = ''11''\<rparr>]]
   \<in> set (sdkRequirementsMutator plainConsumer 0)"
    using sdkRequirementsMutator_sound [of plainConsumer 0]
    by (simp add: plainConsumer_def requiredSdksMethod_def ContainingSdk_def Contains_def)
  ultimately show ?thesis by blast
qed

section \<open>Step 2: the name checks\<close>

lemma nameChecks_nonempty:
  "(nameChecks snap r \<noteq> []) =
     ((snap \<and> Unversioned r) \<or> (\<not> snap \<and> \<not> Unversioned r) \<or>
      (Version r \<noteq> [] \<and> Version r \<noteq> ''current'' \<and> Atoi (Version r) = None))"
  by (simp add: nameChecks_def split: option.splits)

lemma nameChecks_on_name:
  "d \<in> set (nameChecks snap r) \<Longrightarrow> \<exists>f a. d = PropertyError ''name'' f a"
  by (auto simp: nameChecks_def split: if_splits option.splits)

lemma newErrors_memberDepsMutator:
  "sdkModule (modules g ! i) = Some s \<Longrightarrow>
   newErrors g (memberDepsMutator g i) =
     map (Pair i) (nameChecks (snapshot s) (ParseSdkRef (moduleName (modules g ! i))))"
  by (simp add: newErrors_def memberDepsMutator_def Let_def)

lemma isDigit_value: "isDigit c \<Longrightarrow> 48 \<le> int (of_char c)"
  by (auto simp: isDigit_def)

lemma isDigit_no_sign: "isDigit c \<Longrightarrow> c \<noteq> CHR ''-'' \<and> c \<noteq> CHR ''+''"
  by (auto simp: isDigit_def)

lemma foldl_digits_nonneg:
  "0 \<le> n \<Longrightarrow> list_all isDigit ds \<Longrightarrow>
   0 \<le> foldl (\<lambda>n c. n * 10 + (int (of_char c) - 48)) n ds"
proof (induction ds arbitrary: n)
  case Nil
  then show ?case by simp
next
  case (Cons c ds)
  from Cons.prems have "0 \<le> n * 10 + (int (of_char c) - 48)"
    using isDigit_value [of c] by simp
  with Cons show ?case by simp
qed

lemma Atoi_literal:
  assumes "nonNegIntLiteral v" "digitsValue v \<le> 2 ^ 63 - 1"
  shows "Atoi v = Some (digitsValue v)"
proof -
  from assms(1) obtain c cs where v: "v = c # cs" and dig: "list_all isDigit (c # cs)"
    by (cases v) (auto simp: nonNegIntLiteral_def)
  from dig have nosign: "c \<noteq> CHR ''-''" "c \<noteq> CHR ''+''"
    using isDigit_no_sign [of c] by simp_all
  from dig have "0 \<le> digitsValue v"
    unfolding digitsValue_def v by (intro foldl_digits_nonneg) simp_all
  with assms(2) dig nosign show ?thesis
    by (simp add: Atoi_def v Let_def)
qed

text \<open>
  Claim C4, as the code has it. For an sdk module, \<open>memberDepsMutator\<close> reports a
  property error exactly when the module is a snapshot and its parsed reference is
  unversioned, or it is no snapshot and the reference is versioned, or the version is
  not empty, is not "current" and is refused by \<open>strconv.Atoi\<close>. Every such error is a
  property error on "name" of that module. A snapshot whose version is "current", or a
  sequence of decimal digits whose value fits an \<open>int\<close>, passes with no error.
\<close>

theorem memberDepsMutator_name_errors:
  assumes "sdkModule (modules g ! i) = Some s"
  defines "r \<equiv> ParseSdkRef (moduleName (modules g ! i))"
  defines "reported \<equiv> newErrors g (memberDepsMutator g i)"
  shows "((reported \<noteq> []) =
            ((snapshot s \<and> Unversioned r) \<or> (\<not> snapshot s \<and> \<not> Unversioned r) \<or>
             (Version r \<noteq> [] \<and> Version r \<noteq> ''current'' \<and> Atoi (Version r) = None))) \<and>
         (\<forall>x \<in> set reported. fst x = i \<and> (\<exists>f a. snd x = PropertyError ''name'' f a)) \<and>
         (snapshot s \<and>
            (Version r = ''current'' \<or>
             (nonNegIntLiteral (Version r) \<and> digitsValue (Version r) \<le> 2 ^ 63 - 1))
          \<longrightarrow> reported = [])"
proof (intro conjI ballI impI)
  show "(reported \<noteq> []) =
          ((snapshot s \<and> Unversioned r) \<or> (\<not> snapshot s \<and> \<not> Unversioned r) \<or>
           (Version r \<noteq> [] \<and> Version r \<noteq> ''current'' \<and> Atoi (Version r) = None))"
    unfolding reported_def r_def
    by (simp only: newErrors_memberDepsMutator [OF assms(1)] map_is_Nil_conv
        nameChecks_nonempty)
next
  fix x
  assume "x \<in> set reported"
  then obtain d where x: "x = (i, d)" and d: "d \<in> set (nameChecks (snapshot s) r)"
    unfolding reported_def r_def by (auto simp: newErrors_memberDepsMutator [OF assms(1)])
  from nameChecks_on_name [OF d] x
  show "fst x = i" and "\<exists>f a. snd x = PropertyError ''name'' f a" by simp_all
next
  assume good: "snapshot s \<and>
            (Version r = ''current'' \<or>
             (nonNegIntLiteral (Version r) \<and> digitsValue (Version r) \<le> 2 ^ 63 - 1))"
  then have ne: "Version r \<noteq> []"
    by (auto simp: nonNegIntLiteral_def)
  from good have "Version r = ''current'' \<or> Atoi (Version r) \<noteq> None"
    using Atoi_literal [of "Version r"] by auto
  with good ne have "nameChecks (snapshot s) r = []"
    using nameChecks_nonempty [of "snapshot s" r] by (auto simp: Unversioned_def)
  then show "reported = []"
    unfolding reported_def r_def by (simp add: newErrors_memberDepsMutator [OF assms(1)])
qed


text \<open>
  The theorem at the snapshot \<open>mysdk@11\<close>: no error.
\<close>

theorem memberDepsMutator_name_errors_goodSnapshot:
  "newErrors goodSnapshot (memberDepsMutator goodSnapshot 0) = []"
  using memberDepsMutator_name_errors [of goodSnapshot 0]
  by (simp add: goodSnapshot_def newErrors_def memberDepsMutator_def nameChecks_def ParseSdkRef_def
      SdkVersionSeparator_def Unversioned_def Atoi_def isDigit_def digitsValue_def snapshot_def
      sdkNamed_def memberNamed_def directDeps_def directDepEdges_def makeMember_def
      MakeMemberOf_def Let_def)

text \<open>
  Claim C4 as stated fails: the version \<open>-5\<close> is not empty, not "current" and not a
  non-negative integer literal, yet \<open>strconv.Atoi\<close> accepts it and the snapshot
  \<open>mysdk@-5\<close> is reported no error.
\<close>

theorem signed_version_accepted:
  "specNameError True (ParseSdkRef ''mysdk@-5'') \<and>
   newErrors signedSnapshot (memberDepsMutator signedSnapshot 0) = []"
  by (simp add: signedSnapshot_def specNameError_def nonNegIntLiteral_def
      newErrors_def memberDepsMutator_def nameChecks_def ParseSdkRef_def
      SdkVersionSeparator_def Unversioned_def Atoi_def isDigit_def digitsValue_def snapshot_def
      sdkNamed_def memberNamed_def directDeps_def directDepEdges_def makeMember_def
      MakeMemberOf_def Let_def)

section \<open>Step 2: the containing SDK of the dependencies\<close>

lemma foldl_update_length:
  "length (foldl (\<lambda>ms d. ms[d := f (ms ! d)]) ms ds) = length ms"
  by (induction ds arbitrary: ms) simp_all

lemma foldl_update_nth:
  assumes idem: "\<And>x. f (f x) = f x" and j: "j < length ms"
  shows "foldl (\<lambda>ms d. ms[d := f (ms ! d)]) ms ds ! j =
           (if j \<in> set ds then f (ms ! j) else ms ! j)"
  using j
proof (induction ds arbitrary: ms)
  case Nil
  then show ?case by simp
next
  case (Cons d ds)
  let ?ms = "ms[d := f (ms ! d)]"
  from Cons.prems have j': "j < length ?ms" by simp
  have "foldl (\<lambda>ms d. ms[d := f (ms ! d)]) ?ms ds ! j =
          (if j \<in> set ds then f (?ms ! j) else ?ms ! j)"
    by (rule Cons.IH [OF j'])
  with Cons.prems show ?case
    by (cases "j = d") (simp_all add: idem)
qed

lemma makeMember_memberOf: "makeMember r ms d = ms[d := memberOf r (ms ! d)]"
  by (simp add: makeMember_def memberOf_def split: option.splits)

lemma memberOf_idem: "memberOf r (memberOf r m) = memberOf r m"
  by (simp add: memberOf_def MakeMemberOf_def split: option.splits)

lemma memberDepsMutator_modules:
  assumes "sdkModule (modules g ! i) = Some s" "j < length (modules g)"
  shows "modules (memberDepsMutator g i) ! j =
           (if j \<in> set (directDeps g i)
            then memberOf (ParseSdkRef (moduleName (modules g ! i))) (modules g ! j)
            else modules g ! j)"
proof -
  let ?r = "ParseSdkRef (moduleName (modules g ! i))"
  have "makeMember ?r = (\<lambda>ms d. ms[d := memberOf ?r (ms ! d)])"
    by (intro ext) (rule makeMember_memberOf)
  then have "modules (memberDepsMutator g i) =
          foldl (\<lambda>ms d. ms[d := memberOf ?r (ms ! d)]) (modules g) (directDeps g i)"
    using assms(1) by (simp add: memberDepsMutator_def Let_def)
  then show ?thesis
    using foldl_update_nth [of "memberOf ?r" j "modules g" "directDeps g i"] assms(2)
    by (simp add: memberOf_idem)
qed

lemma memberDepsMutator_not_sdk:
  "sdkModule (modules g ! i) = None \<Longrightarrow> memberDepsMutator g i = g"
  by (simp add: memberDepsMutator_def)

lemma memberDepsMutator_records:
  assumes "sdkModule (modules g ! i) = Some s" "e \<in> set (edges g)" "src e = i"
    "dst e < length (modules g)" "sdkAware (modules g ! dst e) = Some b"
  shows "sdkAware (modules (memberDepsMutator g i) ! dst e) =
           Some (MakeMemberOf b (ParseSdkRef (moduleName (modules g ! i))))"
proof -
  from assms(2,3) have "dst e \<in> set (directDeps g i)"
    by (simp add: directDeps_def directDepEdges_def)
  with assms(1,4,5) show ?thesis
    by (simp add: memberDepsMutator_modules memberOf_def)
qed

text \<open>
  Claim C3, as the code has it. An sdk module records its reference as the containing
  SDK on every direct dependency that is SDK-aware, whatever the tag of the edge; the
  modules that are not direct dependencies are left as they are, and a module that is no
  sdk changes nothing.
\<close>

theorem memberDepsMutator_every_dep:
  "(\<forall>s e b. sdkModule (modules g ! i) = Some s \<and> e \<in> set (edges g) \<and> src e = i \<and>
            dst e < length (modules g) \<and> sdkAware (modules g ! dst e) = Some b
      \<longrightarrow> sdkAware (modules (memberDepsMutator g i) ! dst e) =
            Some (b\<lparr>containingSdk := Some (ParseSdkRef (moduleName (modules g ! i)))\<rparr>)) \<and>
   (\<forall>j. j < length (modules g) \<and> j \<notin> set (directDeps g i)
      \<longrightarrow> modules (memberDepsMutator g i) ! j = modules g ! j) \<and>
   (sdkModule (modules g ! i) = None \<longrightarrow> memberDepsMutator g i = g)"
proof (intro conjI allI impI)
  fix s e b
  assume "sdkModule (modules g ! i) = Some s \<and> e \<in> set (edges g) \<and> src e = i \<and>
            dst e < length (modules g) \<and> sdkAware (modules g ! dst e) = Some b"
  then show "sdkAware (modules (memberDepsMutator g i) ! dst e) =
            Some (b\<lparr>containingSdk := Some (ParseSdkRef (moduleName (modules g ! i)))\<rparr>)"
    using memberDepsMutator_records [of g i s e b] by (simp add: MakeMemberOf_def)
next
  fix j
  assume j: "j < length (modules g) \<and> j \<notin> set (directDeps g i)"
  show "modules (memberDepsMutator g i) ! j = modules g ! j"
  proof (cases "sdkModule (modules g ! i)")
    case None
    then show ?thesis by (simp add: memberDepsMutator_not_sdk)
  next
    case (Some s)
    with j show ?thesis by (simp add: memberDepsMutator_modules)
  qed
next
  assume "sdkModule (modules g ! i) = None"
  then show "memberDepsMutator g i = g" by (rule memberDepsMutator_not_sdk)
qed


text \<open>
  The theorem at an sdk with one dependency on an edge of another package's tag.
\<close>

theorem memberDepsMutator_every_dep_otherTagged:
  "sdkAware (modules (memberDepsMutator otherTagged 0) ! 1) =
     Some \<lparr>containingSdk = Some \<lparr>Name = ''mysdk'', Version = []\<rparr>, requiredSdks = [],
           sdk_member_name = ''libbar''\<rparr>"
  using memberDepsMutator_every_dep [of otherTagged 0]
  by (simp add: otherTagged_def newErrors_def memberDepsMutator_def nameChecks_def ParseSdkRef_def
      SdkVersionSeparator_def Unversioned_def Atoi_def isDigit_def digitsValue_def snapshot_def
      sdkNamed_def memberNamed_def directDeps_def directDepEdges_def makeMember_def
      MakeMemberOf_def Let_def)

text \<open>
  Claim C3 as stated fails: the only edge of the sdk carries a tag that is no membership
  tag, the dependency is in no SDK before the step, and the step records the sdk as its
  containing SDK.
\<close>

theorem other_tag_recorded:
  "map tag (directDepEdges otherTagged 0) = [OtherDepTag 0] \<and>
   map_option containingSdk (sdkAware (modules otherTagged ! 1)) = Some None \<and>
   map_option containingSdk (sdkAware (modules (memberDepsMutator otherTagged 0) ! 1)) =
     Some (Some \<lparr>Name = ''mysdk'', Version = []\<rparr>)"
  by (simp add: otherTagged_def newErrors_def memberDepsMutator_def nameChecks_def ParseSdkRef_def
      SdkVersionSeparator_def Unversioned_def Atoi_def isDigit_def digitsValue_def snapshot_def
      sdkNamed_def memberNamed_def directDeps_def directDepEdges_def makeMember_def
      MakeMemberOf_def Let_def)

text \<open>
  Claim C5, as the code has it. When the name of an sdk module fails the checks, the
  errors are property errors on "name" of that module, and the step still records the
  module's reference as the containing SDK of every SDK-aware direct dependency.
\<close>

theorem memberDepsMutator_error_keeps_going:
  assumes "sdkModule (modules g ! i) = Some s"
    and "newErrors g (memberDepsMutator g i) \<noteq> []"
    and "e \<in> set (edges g)" "src e = i" "dst e < length (modules g)"
    and "sdkAware (modules g ! dst e) = Some b"
  shows "(\<forall>x \<in> set (newErrors g (memberDepsMutator g i)).
            fst x = i \<and> (\<exists>f a. snd x = PropertyError ''name'' f a)) \<and>
         map_option ContainingSdk (sdkAware (modules (memberDepsMutator g i) ! dst e)) =
           Some (ParseSdkRef (moduleName (modules g ! i)))"
proof (intro conjI ballI)
  fix x
  assume "x \<in> set (newErrors g (memberDepsMutator g i))"
  then obtain d where x: "x = (i, d)"
    and d: "d \<in> set (nameChecks (snapshot s) (ParseSdkRef (moduleName (modules g ! i))))"
    by (auto simp: newErrors_memberDepsMutator [OF assms(1)])
  from nameChecks_on_name [OF d] x
  show "fst x = i" and "\<exists>f a. snd x = PropertyError ''name'' f a" by simp_all
next
  show "map_option ContainingSdk (sdkAware (modules (memberDepsMutator g i) ! dst e)) =
           Some (ParseSdkRef (moduleName (modules g ! i)))"
    using memberDepsMutator_records [OF assms(1,3,4,5,6)]
    by (simp add: MakeMemberOf_def ContainingSdk_def)
qed

text \<open>
  The theorem at scenario B.
\<close>

theorem memberDepsMutator_error_keeps_going_scenarioB:
  "newErrors scenarioB (memberDepsMutator scenarioB 0) =
     [(0, PropertyError ''name'' sdkNameFmt [])] \<and>
   map_option ContainingSdk (sdkAware (modules (memberDepsMutator scenarioB 0) ! 1)) =
     Some \<lparr>Name = ''mysdk'', Version = ''5''\<rparr>"
  using memberDepsMutator_error_keeps_going [of scenarioB 0 _ "edges scenarioB ! 0"]
  by (simp add: scenarioB_def ContainingSdk_def newErrors_def memberDepsMutator_def nameChecks_def ParseSdkRef_def
      SdkVersionSeparator_def Unversioned_def Atoi_def isDigit_def digitsValue_def snapshot_def
      sdkNamed_def memberNamed_def directDeps_def directDepEdges_def makeMember_def
      MakeMemberOf_def Let_def)

text \<open>
  Claim C5 as stated fails: in scenario B the name error is reported and the member,
  in no SDK before the step, has the sdk recorded as its containing SDK after it.
\<close>

theorem name_error_does_not_block:
  "newErrors scenarioB (memberDepsMutator scenarioB 0) =
     [(0, PropertyError ''name'' sdkNameFmt [])] \<and>
   map_option containingSdk (sdkAware (modules scenarioB ! 1)) = Some None \<and>
   map_option containingSdk (sdkAware (modules (memberDepsMutator scenarioB 0) ! 1)) =
     Some (Some \<lparr>Name = ''mysdk'', Version = ''5''\<rparr>)"
  by (simp add: scenarioB_def newErrors_def memberDepsMutator_def nameChecks_def ParseSdkRef_def
      SdkVersionSeparator_def Unversioned_def Atoi_def isDigit_def digitsValue_def snapshot_def
      sdkNamed_def memberNamed_def directDeps_def directDepEdges_def makeMember_def
      MakeMemberOf_def Let_def)

section \<open>Step 3 asks for one reverse edge\<close>

text \<open>
  Claim C7. On a module that is SDK-aware, is in some SDK and whose containing SDK is
  versioned, \<open>memberInterVersionMutator\<close> asks for exactly one reverse dependency: from
  the module named by the member name to this module, with the versioned member tag that
  carries this member name and the version of the containing SDK. On every other module
  it asks for none.
\<close>

theorem memberInterVersionMutator_edge:
  "(\<forall>m. sdkAware (modules g ! i) = Some m \<and> IsInAnySdk m \<and> \<not> Unversioned (ContainingSdk m)
      \<longrightarrow> memberInterVersionMutator g i =
            [\<lparr>rd_module = i,
              rd_tag = SdkMemberVesionedDepTag (MemberName m) (Version (ContainingSdk m)),
              rd_destName = MemberName m\<rparr>]) \<and>
   (sdkAware (modules g ! i) = None \<or>
    (\<exists>m. sdkAware (modules g ! i) = Some m \<and>
         (\<not> IsInAnySdk m \<or> Unversioned (ContainingSdk m)))
      \<longrightarrow> memberInterVersionMutator g i = [])"
proof (intro conjI allI impI)
  fix m
  assume "sdkAware (modules g ! i) = Some m \<and> IsInAnySdk m \<and>
          \<not> Unversioned (ContainingSdk m)"
  then show "memberInterVersionMutator g i =
            [\<lparr>rd_module = i,
              rd_tag = SdkMemberVesionedDepTag (MemberName m) (Version (ContainingSdk m)),
              rd_destName = MemberName m\<rparr>]"
    by (simp add: memberInterVersionMutator_def Let_def)
next
  assume "sdkAware (modules g ! i) = None \<or>
    (\<exists>m. sdkAware (modules g ! i) = Some m \<and>
         (\<not> IsInAnySdk m \<or> Unversioned (ContainingSdk m)))"
  then show "memberInterVersionMutator g i = []"
    by (auto simp: memberInterVersionMutator_def)
qed

text \<open>
  The theorem in scenario A: the frozen copy of \<open>libfoo\<close> asks for the edge, \<open>libfoo\<close>
  itself (in no SDK) for none.
\<close>

theorem memberInterVersionMutator_edge_scenarioA:
  "memberInterVersionMutator scenarioA 1 =
     [\<lparr>rd_module = 1, rd_tag = SdkMemberVesionedDepTag ''libfoo'' ''11'',
       rd_destName = ''libfoo''\<rparr>] \<and>
   memberInterVersionMutator scenarioA 0 = []"
  using memberInterVersionMutator_edge [of scenarioA 1]
    memberInterVersionMutator_edge [of scenarioA 0]
  by (simp add: scenarioA_def versionedMember_def memberNamed_def mysdk11_def
      IsInAnySdk_def Unversioned_def ContainingSdk_def MemberName_def)


section \<open>Step 5: which modules replace, and which edges move\<close>

lemma sdkDepsReplaceMutator_cases:
  "sdkDepsReplaceMutator g i =
     (case sdkAware (modules g ! i) of
        None \<Rightarrow> []
      | Some m \<Rightarrow>
          if IsInAnySdk m \<and> \<not> Unversioned (ContainingSdk m) \<and>
             Contains (RequiredSdks m) (ContainingSdk m)
          then [MemberName m] else [])"
  by (simp add: sdkDepsReplaceMutator_def Let_def split: option.splits)

lemma sdkDepsReplaceMutator_modules:
  "modules h = modules g \<Longrightarrow> sdkDepsReplaceMutator h i = sdkDepsReplaceMutator g i"
  by (simp add: sdkDepsReplaceMutator_cases)

lemma sdkDepsReplaceMutator_shape:
  "sdkDepsReplaceMutator g i = [] \<or> (\<exists>nm. sdkDepsReplaceMutator g i = [nm])"
  by (simp add: sdkDepsReplaceMutator_cases split: option.splits)

lemma replaceStep_none: "sdkDepsReplaceMutator g i = [] \<Longrightarrow> replaceStep g i = g"
  by (simp add: replaceStep_def)

lemma replaceStep_one:
  "sdkDepsReplaceMutator g i = [nm] \<Longrightarrow> replaceStep g i = ReplaceDependencies g i nm"
  by (simp add: replaceStep_def)

lemma replaceStep_modules: "modules (replaceStep g i) = modules g"
  using sdkDepsReplaceMutator_shape [of g i]
  by (auto simp: replaceStep_none replaceStep_one ReplaceDependencies_def)

lemma replaceStep_errors: "errors (replaceStep g i) = errors g"
  using sdkDepsReplaceMutator_shape [of g i]
  by (auto simp: replaceStep_none replaceStep_one ReplaceDependencies_def)

lemma edgeStep_none: "sdkDepsReplaceMutator g i = [] \<Longrightarrow> edgeStep g i e = e"
  by (simp add: edgeStep_def)

lemma edgeStep_one:
  "sdkDepsReplaceMutator g i = [nm] \<Longrightarrow> edgeStep g i e = rewire (modules g) i nm e"
  by (simp add: edgeStep_def)

lemma replaceStep_edges: "edges (replaceStep g i) = map (edgeStep g i) (edges g)"
proof -
  consider "sdkDepsReplaceMutator g i = []" | nm where "sdkDepsReplaceMutator g i = [nm]"
    using sdkDepsReplaceMutator_shape [of g i] by blast
  then show ?thesis
  proof cases
    case 1
    then have "edgeStep g i = (\<lambda>e. e)" by (intro ext) (rule edgeStep_none)
    with 1 show ?thesis by (simp add: replaceStep_none)
  next
    case 2
    then show ?thesis
      by (simp add: replaceStep_one edgeStep_one ReplaceDependencies_def)
  qed
qed

lemma edgeStep_modules:
  assumes "modules h = modules g"
  shows "edgeStep h i = edgeStep g i"
proof
  fix e
  show "edgeStep h i e = edgeStep g i e"
    unfolding edgeStep_def sdkDepsReplaceMutator_modules [OF assms] assms ..
qed

lemma edgeStep_cases:
  "edgeStep g i e =
     (if \<exists>nm. sdkDepsReplaceMutator g i = [nm] \<and> moduleName (modules g ! dst e) = nm \<and>
               \<not> isVersionedMember (modules g ! dst e) \<and>
               variant (modules g ! src e) = variant (modules g ! i)
      then e\<lparr>dst := i\<rparr> else e)"
proof -
  consider "sdkDepsReplaceMutator g i = []" | nm where "sdkDepsReplaceMutator g i = [nm]"
    using sdkDepsReplaceMutator_shape [of g i] by blast
  then show ?thesis
  proof cases
    case 1
    then show ?thesis by (simp add: edgeStep_none)
  next
    case 2
    then show ?thesis by (auto simp: edgeStep_one rewire_def)
  qed
qed

text \<open>
  Claim C2. On an SDK-aware module that is in some SDK, \<open>sdkDepsReplaceMutator\<close> asks
  for the replacement by its member name exactly when its containing SDK is versioned and
  is among its own required SDKs, and asks for nothing otherwise. A replacement leaves
  the modules alone and redirects to the current module exactly the edges that point at
  the unversioned module of that name from a dependent of the current module's variant;
  an edge of a dependent of another variant stays as it is, and so does an edge that
  points at a versioned member.
\<close>

theorem sdkDepsReplaceMutator_scoped:
  "(\<forall>m. sdkAware (modules g ! i) = Some m \<and> IsInAnySdk m
      \<longrightarrow> sdkDepsReplaceMutator g i =
            (if \<not> Unversioned (ContainingSdk m) \<and> Contains (RequiredSdks m) (ContainingSdk m)
             then [MemberName m] else [])) \<and>
   (sdkDepsReplaceMutator g i = [] \<longrightarrow> replaceStep g i = g) \<and>
   (\<forall>nm. sdkDepsReplaceMutator g i = [nm]
      \<longrightarrow> modules (replaceStep g i) = modules g \<and>
          edges (replaceStep g i) =
            map (\<lambda>e. if moduleName (modules g ! dst e) = nm \<and>
                         \<not> isVersionedMember (modules g ! dst e) \<and>
                         variant (modules g ! src e) = variant (modules g ! i)
                      then e\<lparr>dst := i\<rparr> else e)
              (edges g)) \<and>
   (\<forall>k. k < length (edges g) \<and>
        variant (modules g ! src (edges g ! k)) \<noteq> variant (modules g ! i)
      \<longrightarrow> edges (replaceStep g i) ! k = edges g ! k) \<and>
   (\<forall>k. k < length (edges g) \<and> isVersionedMember (modules g ! dst (edges g ! k))
      \<longrightarrow> edges (replaceStep g i) ! k = edges g ! k)"
proof (intro conjI allI impI)
  fix m
  assume "sdkAware (modules g ! i) = Some m \<and> IsInAnySdk m"
  then show "sdkDepsReplaceMutator g i =
            (if \<not> Unversioned (ContainingSdk m) \<and> Contains (RequiredSdks m) (ContainingSdk m)
             then [MemberName m] else [])"
    by (simp add: sdkDepsReplaceMutator_cases)
next
  assume "sdkDepsReplaceMutator g i = []"
  then show "replaceStep g i = g" by (simp add: replaceStep_def)
next
  fix nm
  assume nm: "sdkDepsReplaceMutator g i = [nm]"
  show "modules (replaceStep g i) = modules g" by (rule replaceStep_modules)
  from nm show "edges (replaceStep g i) =
            map (\<lambda>e. if moduleName (modules g ! dst e) = nm \<and>
                         \<not> isVersionedMember (modules g ! dst e) \<and>
                         variant (modules g ! src e) = variant (modules g ! i)
                      then e\<lparr>dst := i\<rparr> else e)
              (edges g)"
    by (simp add: replaceStep_edges edgeStep_cases)
next
  fix k
  assume "k < length (edges g) \<and>
        variant (modules g ! src (edges g ! k)) \<noteq> variant (modules g ! i)"
  then show "edges (replaceStep g i) ! k = edges g ! k"
    by (simp add: replaceStep_edges edgeStep_cases)
next
  fix k
  assume "k < length (edges g) \<and> isVersionedMember (modules g ! dst (edges g ! k))"
  then show "edges (replaceStep g i) ! k = edges g ! k"
    by (simp add: replaceStep_edges edgeStep_cases)
qed

section \<open>Step 5 run twice\<close>

lemma run_modules: "modules (runSdkDepsReplaceMutator g order) = modules g"
  unfolding runSdkDepsReplaceMutator_def
  by (induction order arbitrary: g) (simp_all add: replaceStep_modules)

lemma run_errors: "errors (runSdkDepsReplaceMutator g order) = errors g"
  unfolding runSdkDepsReplaceMutator_def
  by (induction order arbitrary: g) (simp_all add: replaceStep_errors)

lemma run_edges:
  "edges (runSdkDepsReplaceMutator g order) =
     map (\<lambda>e. foldl (\<lambda>e' i. edgeStep g i e') e order) (edges g)"
  unfolding runSdkDepsReplaceMutator_def
proof (induction order arbitrary: g)
  case Nil
  show ?case by simp
next
  case (Cons i order)
  have m: "modules (replaceStep g i) = modules g" by (rule replaceStep_modules)
  show ?case
    by (simp add: Cons.IH replaceStep_edges edgeStep_modules [OF m] comp_def)
qed

lemma run_again_edges:
  "edges (runSdkDepsReplaceMutator (runSdkDepsReplaceMutator g order) order') =
     map (\<lambda>e. foldl (\<lambda>e' i. edgeStep g i e') e order')
       (edges (runSdkDepsReplaceMutator g order))"
proof -
  have m: "modules (runSdkDepsReplaceMutator g order) = modules g" by (rule run_modules)
  show ?thesis
    by (simp add: run_edges [of "runSdkDepsReplaceMutator g order"] edgeStep_modules [OF m])
qed

lemma foldl_edgeStep_fixed:
  "(\<And>i. i \<in> set order \<Longrightarrow> edgeStep g i e = e) \<Longrightarrow>
   foldl (\<lambda>e' i. edgeStep g i e') e order = e"
  by (induction order) simp_all

lemma replaces_versioned: "replaces g k \<Longrightarrow> isVersionedMember (modules g ! k)"
  by (auto simp: replaces_def sdkDepsReplaceMutator_cases isVersionedMember_def
      split: option.splits if_splits)

lemma edgeStep_target_fixed:
  assumes "replaces g k"
  shows "edgeStep g j (e\<lparr>dst := k\<rparr>) = e\<lparr>dst := k\<rparr>"
  using replaces_versioned [OF assms] by (simp add: edgeStep_cases)

lemma foldl_edgeStep_target_fixed:
  "replaces g k \<Longrightarrow> foldl (\<lambda>e' i. edgeStep g i e') (e\<lparr>dst := k\<rparr>) order = e\<lparr>dst := k\<rparr>"
  by (rule foldl_edgeStep_fixed) (rule edgeStep_target_fixed)

lemma foldl_edgeStep_result:
  "(\<forall>i \<in> set order. edgeStep g i e = e) \<or>
   (\<exists>k \<in> set order. replaces g k \<and>
      foldl (\<lambda>e' i. edgeStep g i e') e order = e\<lparr>dst := k\<rparr>)"
proof (induction order)
  case Nil
  show ?case by simp
next
  case (Cons i order)
  show ?case
  proof (cases "edgeStep g i e = e")
    case True
    with Cons.IH show ?thesis by auto
  next
    case False
    then have moved: "edgeStep g i e = e\<lparr>dst := i\<rparr>" and rep: "replaces g i"
      by (auto simp: edgeStep_cases replaces_def split: if_splits)
    from foldl_edgeStep_target_fixed [OF rep, of e order] moved rep
    show ?thesis by auto
  qed
qed

lemma foldl_edgeStep_again:
  assumes sub: "set order' \<subseteq> set order"
  shows "foldl (\<lambda>e' i. edgeStep g i e') (foldl (\<lambda>e' i. edgeStep g i e') e order) order' =
         foldl (\<lambda>e' i. edgeStep g i e') e order"
proof -
  from foldl_edgeStep_result [of order g e] show ?thesis
  proof
    assume fixed: "\<forall>i \<in> set order. edgeStep g i e = e"
    then have "foldl (\<lambda>e' i. edgeStep g i e') e order = e"
      by (intro foldl_edgeStep_fixed) blast
    moreover from fixed sub have "foldl (\<lambda>e' i. edgeStep g i e') e order' = e"
      by (intro foldl_edgeStep_fixed) blast
    ultimately show ?thesis by simp
  next
    assume "\<exists>k \<in> set order. replaces g k \<and>
              foldl (\<lambda>e' i. edgeStep g i e') e order = e\<lparr>dst := k\<rparr>"
    then obtain k where k: "replaces g k"
      and r: "foldl (\<lambda>e' i. edgeStep g i e') e order = e\<lparr>dst := k\<rparr>" by blast
    from foldl_edgeStep_target_fixed [OF k, of e order'] r show ?thesis by simp
  qed
qed

lemma run_again:
  assumes "set order' \<subseteq> set order"
  shows "runSdkDepsReplaceMutator (runSdkDepsReplaceMutator g order) order' =
         runSdkDepsReplaceMutator g order"
proof -
  let ?h = "runSdkDepsReplaceMutator g order"
  have "edges (runSdkDepsReplaceMutator ?h order') =
          map (\<lambda>e. foldl (\<lambda>e' i. edgeStep g i e') e order') (edges ?h)"
    by (rule run_again_edges)
  also have "\<dots> = edges ?h"
    by (simp add: run_edges [of g] comp_def foldl_edgeStep_again [OF assms])
  finally have "edges (runSdkDepsReplaceMutator ?h order') = edges ?h" .
  then show ?thesis
    by (intro graph.equality) (simp_all add: run_modules run_errors)
qed

text \<open>
  Claim C8. With the modules (names, variants, containing and required SDKs) fixed,
  running the replacement pass a second time changes nothing: the graph after two runs
  is the graph after one. The same holds when the second run visits the modules of the
  first in another order.
\<close>

theorem runSdkDepsReplaceMutator_idempotent:
  "runSdkDepsReplaceMutator (runSdkDepsReplaceMutator g order) order =
     runSdkDepsReplaceMutator g order \<and>
   (set order' \<subseteq> set order
      \<longrightarrow> runSdkDepsReplaceMutator (runSdkDepsReplaceMutator g order) order' =
          runSdkDepsReplaceMutator g order)"
proof (intro conjI impI)
  show "runSdkDepsReplaceMutator (runSdkDepsReplaceMutator g order) order =
          runSdkDepsReplaceMutator g order"
    by (rule run_again) simp
next
  assume "set order' \<subseteq> set order"
  then show "runSdkDepsReplaceMutator (runSdkDepsReplaceMutator g order) order' =
          runSdkDepsReplaceMutator g order"
    by (rule run_again)
qed

lemma scenarioA_replace:
  "sdkDepsReplaceMutator scenarioA 0 = []"
  "sdkDepsReplaceMutator scenarioA (Suc 0) = [''libfoo'']"
  "sdkDepsReplaceMutator scenarioA 2 = []"
  "sdkDepsReplaceMutator scenarioA 3 = []"
  by (simp_all add: sdkDepsReplaceMutator_cases scenarioA_def versionedMember_def
      memberNamed_def mysdk11_def IsInAnySdk_def Unversioned_def ContainingSdk_def
      MemberName_def RequiredSdks_def Contains_def)

lemma scenarioA_rewire:
  "map (rewire (modules scenarioA) (Suc 0) ''libfoo'') (edges scenarioA) =
     [\<lparr>src = 2, tag = OtherDepTag 0, dst = Suc 0\<rparr>,
      \<lparr>src = 3, tag = OtherDepTag 0, dst = 0\<rparr>]"
  by (simp add: rewire_def scenarioA_def versionedMember_def memberNamed_def
      isVersionedMember_def IsInAnySdk_def)

text \<open>
  The theorem in scenario A: the frozen copy replaces \<open>libfoo\<close>; the edge of the apex
  variant that shares its variant moves to it, the edge of the other variant stays.
\<close>

theorem sdkDepsReplaceMutator_scoped_scenarioA:
  "sdkDepsReplaceMutator scenarioA 1 = [''libfoo''] \<and>
   sdkDepsReplaceMutator scenarioA 0 = [] \<and>
   map dst (edges scenarioA) = [0, 0] \<and>
   map dst (edges (replaceStep scenarioA 1)) = [1, 0]"
proof -
  have before: "map dst (edges scenarioA) = [0, 0]" by (simp add: scenarioA_def)
  from sdkDepsReplaceMutator_scoped [of scenarioA "Suc 0"] scenarioA_replace(2)
  have "edges (replaceStep scenarioA (Suc 0)) =
          map (\<lambda>e. if moduleName (modules scenarioA ! dst e) = ''libfoo'' \<and>
                       \<not> isVersionedMember (modules scenarioA ! dst e) \<and>
                       variant (modules scenarioA ! src e) =
                       variant (modules scenarioA ! Suc 0)
                    then e\<lparr>dst := Suc 0\<rparr> else e)
            (edges scenarioA)"
    by blast
  then have "map dst (edges (replaceStep scenarioA (Suc 0))) = [Suc 0, 0]"
    by (simp add: scenarioA_def versionedMember_def memberNamed_def
        isVersionedMember_def IsInAnySdk_def)
  with before show ?thesis by (simp add: scenarioA_replace)
qed

lemma scenarioA_run_edges:
  "edges (runSdkDepsReplaceMutator scenarioA [0, Suc 0, 2, 3]) =
     [\<lparr>src = 2, tag = OtherDepTag 0, dst = Suc 0\<rparr>,
      \<lparr>src = 3, tag = OtherDepTag 0, dst = 0\<rparr>]"
proof -
  have "(\<lambda>e. foldl (\<lambda>e' i. edgeStep scenarioA i e') e [0, Suc 0, 2, 3]) =
          rewire (modules scenarioA) (Suc 0) ''libfoo''"
    by (intro ext)
      (simp add: edgeStep_none scenarioA_replace edgeStep_one [OF scenarioA_replace(2)])
  then show ?thesis by (simp only: run_edges scenarioA_rewire)
qed

lemma chained_replace:
  "sdkDepsReplaceMutator chained 0 = []"
  "sdkDepsReplaceMutator chained (Suc 0) = [''libfoo'']"
  "sdkDepsReplaceMutator chained 2 = [''libbar'']"
  "sdkDepsReplaceMutator chained 3 = []"
  by (simp_all add: sdkDepsReplaceMutator_cases chained_def versionedMember_def
      memberNamed_def mysdk11_def IsInAnySdk_def Unversioned_def ContainingSdk_def
      MemberName_def RequiredSdks_def Contains_def)

lemma chained_pass:
  "foldl (\<lambda>e' i. edgeStep chained i e') e [2, Suc 0, 0, 3] =
     rewire (modules chained) (Suc 0) ''libfoo'' (rewire (modules chained) 2 ''libbar'' e)"
  by (simp add: edgeStep_none chained_replace edgeStep_one [OF chained_replace(2)]
      edgeStep_one [OF chained_replace(3)])

lemma chained_run_edges:
  "edges (runSdkDepsReplaceMutator chained [2, Suc 0, 0, 3]) =
     [\<lparr>src = 3, tag = OtherDepTag 0, dst = Suc 0\<rparr>]"
proof -
  have "map (\<lambda>e. rewire (modules chained) (Suc 0) ''libfoo''
                    (rewire (modules chained) 2 ''libbar'' e)) (edges chained) =
          [\<lparr>src = 3, tag = OtherDepTag 0, dst = Suc 0\<rparr>]"
    by (simp add: rewire_def chained_def versionedMember_def memberNamed_def
        isVersionedMember_def IsInAnySdk_def)
  then show ?thesis by (simp only: run_edges chained_pass)
qed

text \<open>
  The theorem in scenario A, with the second run in the reverse order, and on the chain
  of frozen copies: the edge that the first run moved to \<open>libbar\<close> stays there.
\<close>

theorem runSdkDepsReplaceMutator_idempotent_scenarioA:
  "map dst (edges (runSdkDepsReplaceMutator scenarioA [0, 1, 2, 3])) = [1, 0] \<and>
   runSdkDepsReplaceMutator (runSdkDepsReplaceMutator scenarioA [0, 1, 2, 3]) [3, 2, 1, 0] =
     runSdkDepsReplaceMutator scenarioA [0, 1, 2, 3] \<and>
   map dst (edges (runSdkDepsReplaceMutator chained [2, 1, 0, 3])) = [1] \<and>
   map dst (edges (runSdkDepsReplaceMutator
                     (runSdkDepsReplaceMutator chained [2, 1, 0, 3]) [2, 1, 0, 3])) = [1]"
proof -
  have a: "map dst (edges (runSdkDepsReplaceMutator scenarioA [0, Suc 0, 2, 3])) = [Suc 0, 0]"
    by (simp add: scenarioA_run_edges)
  have "set [3, 2, Suc 0, 0] \<subseteq> set [0, Suc 0, 2, 3::nat]" by simp
  with runSdkDepsReplaceMutator_idempotent [of scenarioA "[0, Suc 0, 2, 3]" "[3, 2, Suc 0, 0]"]
  have b: "runSdkDepsReplaceMutator (runSdkDepsReplaceMutator scenarioA [0, Suc 0, 2, 3])
             [3, 2, Suc 0, 0] = runSdkDepsReplaceMutator scenarioA [0, Suc 0, 2, 3]"
    by blast
  have c: "map dst (edges (runSdkDepsReplaceMutator chained [2, Suc 0, 0, 3])) = [Suc 0]"
    by (simp add: chained_run_edges)
  from runSdkDepsReplaceMutator_idempotent [of chained "[2, Suc 0, 0, 3]" "[]"]
  have "runSdkDepsReplaceMutator (runSdkDepsReplaceMutator chained [2, Suc 0, 0, 3])
          [2, Suc 0, 0, 3] = runSdkDepsReplaceMutator chained [2, Suc 0, 0, 3]"
    by blast
  with c have d: "map dst (edges (runSdkDepsReplaceMutator
                     (runSdkDepsReplaceMutator chained [2, Suc 0, 0, 3]) [2, Suc 0, 0, 3])) =
                  [Suc 0]"
    by simp
  from a b c d show ?thesis by simp
qed

section \<open>Step 4: required SDKs only grow\<close>



lemma buildWith_built: "buildWith required ms d = ms[d := built required (ms ! d)]"
  by (simp add: buildWith_def built_def split: option.splits)

lemma sdkDepsMutator_edges: "edges (sdkDepsMutator g i) = edges g"
  by (simp add: sdkDepsMutator_def Let_def split: option.splits)


lemma sdkDepsMutator_idle:
  "sdkAware (modules g ! i) = None \<or>
   (\<exists>m. sdkAware (modules g ! i) = Some m \<and> RequiredSdks m = []) \<Longrightarrow>
   sdkDepsMutator g i = g"
  by (auto simp: sdkDepsMutator_def Let_def)

lemma sdkDepsMutator_active:
  assumes "sdkAware (modules g ! i) = Some m" "RequiredSdks m \<noteq> []"
  shows "modules (sdkDepsMutator g i) =
           foldl (\<lambda>ms d. ms[d := built (RequiredSdks m) (ms ! d)]) (modules g) (directDeps g i)"
proof -
  have "buildWith (RequiredSdks m) = (\<lambda>ms d. ms[d := built (RequiredSdks m) (ms ! d)])"
    by (intro ext) (rule buildWith_built)
  with assms show ?thesis by (simp add: sdkDepsMutator_def Let_def)
qed

lemma sdkDepsMutator_length: "length (modules (sdkDepsMutator g i)) = length (modules g)"
proof (cases "sdkAware (modules g ! i)")
  case None
  then show ?thesis by (simp add: sdkDepsMutator_idle)
next
  case (Some m)
  show ?thesis
  proof (cases "RequiredSdks m = []")
    case True
    with Some show ?thesis by (simp add: sdkDepsMutator_idle)
  next
    case False
    with Some show ?thesis by (simp add: sdkDepsMutator_active foldl_update_length)
  qed
qed









lemma runSdkDepsMutator_edges: "edges (runSdkDepsMutator g order) = edges g"
  by (induction order arbitrary: g) (simp_all add: runSdkDepsMutator_def sdkDepsMutator_edges)

lemma runSdkDepsMutator_length:
  "length (modules (runSdkDepsMutator g order)) = length (modules g)"
  by (induction order arbitrary: g) (simp_all add: runSdkDepsMutator_def sdkDepsMutator_length)










section \<open>The snapshot file and the Android.mk entries\<close>

lemma setProperty_Snapshot:
  "setProperty ps kv = Inr ps' \<Longrightarrow> Snapshot ps' = Snapshot ps"
  by (cases kv) (auto split: if_splits bpValue.splits)

lemma unpackProperties_Snapshot:
  "unpackProperties ps bp = Inr ps' \<Longrightarrow> Snapshot ps' = Snapshot ps"
proof (induction bp arbitrary: ps)
  case Nil
  then show ?case by simp
next
  case (Cons kv bp)
  then obtain ps1 where 1: "setProperty ps kv = Inr ps1"
    and 2: "unpackProperties ps1 bp = Inr ps'"
    by (auto split: sum.splits)
  from Cons.IH [OF 2] setProperty_Snapshot [OF 1] show ?case by simp
qed

lemma loadModule_snapshot:
  assumes "loadModule s0 bp = Inr s"
  shows "snapshot s = snapshot s0" and "snapshotFile s = snapshotFile s0"
proof -
  from assms obtain ps where ps: "unpackProperties (properties s0) bp = Inr ps"
    and s: "s = s0\<lparr>properties := ps\<rparr>"
    by (auto simp: loadModule_def split: sum.splits)
  from unpackProperties_Snapshot [OF ps] s
  show "snapshot s = snapshot s0" and "snapshotFile s = snapshotFile s0"
    by (simp_all add: snapshot_def)
qed

lemma AndroidMkEntries_valid:
  "snapshotFile s = Some p \<Longrightarrow>
   AndroidMkEntries_of nm s =
     \<lparr>Class = ''FAKE'', OutputFile = Some p, DistFile = Some p,
      Include = ''$(BUILD_PHONY_PACKAGE)'',
      ExtraFooters = [[''.PHONY: '' @ nm, nm @ '': '' @ p]]\<rparr>"
  by (simp add: AndroidMkEntries_of_def Valid_def String_of_def)

lemma unpackProperties_mutated:
  "''snapshot'' \<in> fst ` set bp \<Longrightarrow> \<exists>err. unpackProperties ps bp = Inl err"
proof (induction bp arbitrary: ps)
  case Nil
  then show ?case by simp
next
  case (Cons kv bp)
  show ?case
  proof (cases "setProperty ps kv")
    case (Inl err)
    then show ?thesis by simp
  next
    case (Inr ps1)
    then have "fst kv \<noteq> ''snapshot''"
      by (cases kv) (auto split: if_splits)
    with Cons.prems have "''snapshot'' \<in> fst ` set bp" by auto
    from Cons.IH [OF this, of ps1] Inr show ?thesis by simp
  qed
qed

lemma GenerateAndroidBuildActions_sdk:
  "\<not> snapshot s \<Longrightarrow>
   snapshotFile (GenerateAndroidBuildActions buildSnapshot s) = Some (buildSnapshot s)"
  by (simp add: GenerateAndroidBuildActions_def OptionalPathForPath_def)

lemma GenerateAndroidBuildActions_snapshot:
  "snapshot s \<Longrightarrow> GenerateAndroidBuildActions buildSnapshot s = s"
  by (simp add: GenerateAndroidBuildActions_def)

text \<open>
  Claim C9. A module made by \<open>ModuleFactory\<close> and loaded from a build file is no
  snapshot: \<open>GenerateAndroidBuildActions\<close> stores the path of the built snapshot as a
  valid snapshot file, and the Android.mk entries carry that file as output and dist
  file, with the footer lines \<open>.PHONY: name\<close> and \<open>name: file\<close>. A module made by
  \<open>SnapshotModuleFactory\<close> is a snapshot whatever the build file assigns:
  \<open>GenerateAndroidBuildActions\<close> leaves it as it is, with no snapshot file, and its
  Android.mk entries are empty. A build file that assigns \<open>snapshot\<close> is refused.
\<close>

theorem snapshot_output:
  "(\<forall>s. loadModule ModuleFactory bp = Inr s
      \<longrightarrow> \<not> snapshot s \<and>
          snapshotFile (GenerateAndroidBuildActions buildSnapshot s) = Some (buildSnapshot s) \<and>
          Valid (snapshotFile (GenerateAndroidBuildActions buildSnapshot s)) \<and>
          AndroidMkEntries_of nm (GenerateAndroidBuildActions buildSnapshot s) =
            \<lparr>Class = ''FAKE'', OutputFile = Some (buildSnapshot s),
             DistFile = Some (buildSnapshot s), Include = ''$(BUILD_PHONY_PACKAGE)'',
             ExtraFooters = [[''.PHONY: '' @ nm, nm @ '': '' @ buildSnapshot s]]\<rparr>) \<and>
   (\<forall>s. loadModule SnapshotModuleFactory bp = Inr s
      \<longrightarrow> snapshot s \<and> GenerateAndroidBuildActions buildSnapshot s = s \<and>
          \<not> Valid (snapshotFile (GenerateAndroidBuildActions buildSnapshot s)) \<and>
          AndroidMkEntries_of nm (GenerateAndroidBuildActions buildSnapshot s) =
            emptyAndroidMkEntries) \<and>
   (\<forall>s0. ''snapshot'' \<in> fst ` set bp \<longrightarrow> (\<exists>err. loadModule s0 bp = Inl err))"
proof (intro conjI allI impI)
  fix s
  assume l: "loadModule ModuleFactory bp = Inr s"
  from loadModule_snapshot(1) [OF l] show ns: "\<not> snapshot s"
    by (simp add: snapshot_def ModuleFactory_def)
  then show f: "snapshotFile (GenerateAndroidBuildActions buildSnapshot s) =
                  Some (buildSnapshot s)"
    by (rule GenerateAndroidBuildActions_sdk)
  then show "Valid (snapshotFile (GenerateAndroidBuildActions buildSnapshot s))"
    by (simp add: Valid_def)
  from f show "AndroidMkEntries_of nm (GenerateAndroidBuildActions buildSnapshot s) =
            \<lparr>Class = ''FAKE'', OutputFile = Some (buildSnapshot s),
             DistFile = Some (buildSnapshot s), Include = ''$(BUILD_PHONY_PACKAGE)'',
             ExtraFooters = [[''.PHONY: '' @ nm, nm @ '': '' @ buildSnapshot s]]\<rparr>"
    by (rule AndroidMkEntries_valid)
next
  fix s
  assume l: "loadModule SnapshotModuleFactory bp = Inr s"
  from loadModule_snapshot(1) [OF l] show sn: "snapshot s"
    by (simp add: snapshot_def SnapshotModuleFactory_def ModuleFactory_def)
  then show g: "GenerateAndroidBuildActions buildSnapshot s = s"
    by (rule GenerateAndroidBuildActions_snapshot)
  from loadModule_snapshot(2) [OF l] have n: "snapshotFile s = None"
    by (simp add: SnapshotModuleFactory_def ModuleFactory_def)
  with g show "\<not> Valid (snapshotFile (GenerateAndroidBuildActions buildSnapshot s))"
    by (simp add: Valid_def)
  from g n show "AndroidMkEntries_of nm (GenerateAndroidBuildActions buildSnapshot s) =
            emptyAndroidMkEntries"
    by (simp add: AndroidMkEntries_of_def Valid_def)
next
  fix s0 :: sdk
  assume "''snapshot'' \<in> fst ` set bp"
  from unpackProperties_mutated [OF this, of "properties s0"]
  obtain err where "unpackProperties (properties s0) bp = Inl err" by blast
  then have "loadModule s0 bp = Inl err" by (simp add: loadModule_def)
  then show "\<exists>err. loadModule s0 bp = Inl err" by blast
qed

text \<open>
  The theorem for the sdk \<open>mysdk\<close> with one native library, and for its snapshot.
\<close>

theorem snapshot_output_mysdk:
  "AndroidMkEntries_of ''mysdk''
     (GenerateAndroidBuildActions mysdkZip
        \<lparr>properties = \<lparr>Java_header_libs = [], Java_libs = [],
                        Native_shared_libs = [''libfoo''], Stubs_sources = [],
                        Snapshot = False\<rparr>,
         snapshotFile = None\<rparr>) =
     \<lparr>Class = ''FAKE'', OutputFile = Some ''out/soong/mysdk-current.zip'',
      DistFile = Some ''out/soong/mysdk-current.zip'', Include = ''$(BUILD_PHONY_PACKAGE)'',
      ExtraFooters = [[''.PHONY: mysdk'', ''mysdk: out/soong/mysdk-current.zip'']]\<rparr> \<and>
   AndroidMkEntries_of ''mysdk@11''
     (GenerateAndroidBuildActions mysdkZip
        \<lparr>properties = \<lparr>Java_header_libs = [], Java_libs = [],
                        Native_shared_libs = [''libfoo''], Stubs_sources = [],
                        Snapshot = True\<rparr>,
         snapshotFile = None\<rparr>) = emptyAndroidMkEntries \<and>
   loadModule SnapshotModuleFactory [(''snapshot'', BpBool False)] =
     Inl (MutatedField ''snapshot'')"
proof -
  have l1: "loadModule ModuleFactory mysdkBp =
              Inr \<lparr>properties = \<lparr>Java_header_libs = [], Java_libs = [],
                                  Native_shared_libs = [''libfoo''], Stubs_sources = [],
                                  Snapshot = False\<rparr>,
                   snapshotFile = None\<rparr>"
    by (simp add: loadModule_def ModuleFactory_def mysdkBp_def)
  have l2: "loadModule SnapshotModuleFactory mysdkBp =
              Inr \<lparr>properties = \<lparr>Java_header_libs = [], Java_libs = [],
                                  Native_shared_libs = [''libfoo''], Stubs_sources = [],
                                  Snapshot = True\<rparr>,
                   snapshotFile = None\<rparr>"
    by (simp add: loadModule_def SnapshotModuleFactory_def ModuleFactory_def mysdkBp_def)
  have l3: "loadModule SnapshotModuleFactory [(''snapshot'', BpBool False)] =
              Inl (MutatedField ''snapshot'')"
    by (simp add: loadModule_def)
  from snapshot_output [of mysdkBp mysdkZip "''mysdk''", THEN conjunct1, rule_format, OF l1]
  have a1: "AndroidMkEntries_of ''mysdk''
     (GenerateAndroidBuildActions mysdkZip
        \<lparr>properties = \<lparr>Java_header_libs = [], Java_libs = [],
                        Native_shared_libs = [''libfoo''], Stubs_sources = [],
                        Snapshot = False\<rparr>,
         snapshotFile = None\<rparr>) =
     \<lparr>Class = ''FAKE'', OutputFile = Some ''out/soong/mysdk-current.zip'',
      DistFile = Some ''out/soong/mysdk-current.zip'', Include = ''$(BUILD_PHONY_PACKAGE)'',
      ExtraFooters = [[''.PHONY: mysdk'', ''mysdk: out/soong/mysdk-current.zip'']]\<rparr>"
    by (simp add: mysdkZip_def)
  from snapshot_output [of mysdkBp mysdkZip "''mysdk@11''", THEN conjunct2, THEN conjunct1,
      rule_format, OF l2]
  have a2: "AndroidMkEntries_of ''mysdk@11''
     (GenerateAndroidBuildActions mysdkZip
        \<lparr>properties = \<lparr>Java_header_libs = [], Java_libs = [],
                        Native_shared_libs = [''libfoo''], Stubs_sources = [],
                        Snapshot = True\<rparr>,
         snapshotFile = None\<rparr>) = emptyAndroidMkEntries"
    by blast
  from a1 a2 l3 show ?thesis by blast
qed


section \<open>The registry after init\<close>

lemma init_registry:
  "init =
     \<lparr>listProperties =
        [\<lparr>name = ''native_shared_libs'', getter = Native_shared_libs,
          memberType = LibrarySdkMemberType, dependencyTag = Some 0\<rparr>,
         \<lparr>name = ''java_header_libs'', getter = Java_header_libs,
          memberType = HeaderLibrarySdkMemberType, dependencyTag = Some (Suc 0)\<rparr>,
         \<lparr>name = ''java_libs'', getter = Java_libs,
          memberType = ImplLibrarySdkMemberType, dependencyTag = Some 2\<rparr>,
         \<lparr>name = ''stubs_sources'', getter = Stubs_sources,
          memberType = DroidStubsSdkMemberType, dependencyTag = Some 3\<rparr>],
      tagObjects =
        [\<lparr>memberListProperty = 0\<rparr>, \<lparr>memberListProperty = Suc 0\<rparr>,
         \<lparr>memberListProperty = 2\<rparr>, \<lparr>memberListProperty = 3\<rparr>]\<rparr>"
  by (simp add: init_def sdkMemberListProperties_def bindTag_def)

lemma less_four: "(p::nat) < 4 \<longleftrightarrow> p = 0 \<or> p = Suc 0 \<or> p = 2 \<or> p = 3"
  by arith

lemma init_length: "length (listProperties init) = 4" "length (tagObjects init) = 4"
  by (simp_all add: init_registry)

lemma init_round_trip:
  assumes "p < length (listProperties init)"
  shows "dependencyTag (listProperties init ! p) = Some p \<and> p < length (tagObjects init) \<and>
         memberListProperty (tagObjects init ! p) = p"
proof -
  from assms have "p = 0 \<or> p = Suc 0 \<or> p = 2 \<or> p = 3"
    by (simp add: init_length less_four)
  then show ?thesis
    by (elim disjE) (simp_all add: init_registry)
qed

lemma memberMutator_init:
  assumes "sdkModule (modules g ! i) = Some m"
  shows "memberMutator init g i =
           AddDependencies LibrarySdkMemberType (Some 0) (Native_shared_libs (properties m)) @
           AddDependencies HeaderLibrarySdkMemberType (Some (Suc 0))
             (Java_header_libs (properties m)) @
           AddDependencies ImplLibrarySdkMemberType (Some 2) (Java_libs (properties m)) @
           AddDependencies DroidStubsSdkMemberType (Some 3) (Stubs_sources (properties m))"
  using assms by (simp add: memberMutator_def init_registry Let_def)

lemma memberMutator_not_sdk:
  "sdkModule (modules g ! i) = None \<Longrightarrow> memberMutator r g i = []"
  by (simp add: memberMutator_def)

lemma memberMutator_init_tag:
  assumes d: "d \<in> set (memberMutator init g i)"
  shows "\<exists>t m. md_tag d = Some t \<and> t < length (tagObjects init) \<and>
           memberListProperty (tagObjects init ! t) < length (listProperties init) \<and>
           sdkModule (modules g ! i) = Some m \<and>
           md_memberType d =
             memberType (listProperties init ! memberListProperty (tagObjects init ! t)) \<and>
           md_name d \<in>
             set (getter (listProperties init ! memberListProperty (tagObjects init ! t))
                    (properties m))"
proof (cases "sdkModule (modules g ! i)")
  case None
  with d show ?thesis by (simp add: memberMutator_not_sdk)
next
  case (Some m)
  from d have "d \<in> set (AddDependencies LibrarySdkMemberType (Some 0)
                           (Native_shared_libs (properties m))) \<or>
               d \<in> set (AddDependencies HeaderLibrarySdkMemberType (Some (Suc 0))
                           (Java_header_libs (properties m))) \<or>
               d \<in> set (AddDependencies ImplLibrarySdkMemberType (Some 2)
                           (Java_libs (properties m))) \<or>
               d \<in> set (AddDependencies DroidStubsSdkMemberType (Some 3)
                           (Stubs_sources (properties m)))"
    by (simp add: memberMutator_init [OF Some])
  then show ?thesis
  proof (elim disjE)
    assume "d \<in> set (AddDependencies LibrarySdkMemberType (Some 0)
                           (Native_shared_libs (properties m)))"
    then have "md_tag d = Some 0 \<and> md_memberType d = LibrarySdkMemberType \<and>
               md_name d \<in> set (Native_shared_libs (properties m))"
      by (auto simp: AddDependencies_def)
    with Some show ?thesis by (simp add: init_registry)
  next
    assume "d \<in> set (AddDependencies HeaderLibrarySdkMemberType (Some (Suc 0))
                           (Java_header_libs (properties m)))"
    then have "md_tag d = Some (Suc 0) \<and> md_memberType d = HeaderLibrarySdkMemberType \<and>
               md_name d \<in> set (Java_header_libs (properties m))"
      by (auto simp: AddDependencies_def)
    with Some show ?thesis by (simp add: init_registry)
  next
    assume "d \<in> set (AddDependencies ImplLibrarySdkMemberType (Some 2)
                           (Java_libs (properties m)))"
    then have "md_tag d = Some 2 \<and> md_memberType d = ImplLibrarySdkMemberType \<and>
               md_name d \<in> set (Java_libs (properties m))"
      by (auto simp: AddDependencies_def)
    with Some show ?thesis by (simp add: init_registry)
  next
    assume "d \<in> set (AddDependencies DroidStubsSdkMemberType (Some 3)
                           (Stubs_sources (properties m)))"
    then have "md_tag d = Some 3 \<and> md_memberType d = DroidStubsSdkMemberType \<and>
               md_name d \<in> set (Stubs_sources (properties m))"
      by (auto simp: AddDependencies_def)
    with Some show ?thesis by (simp add: init_registry)
  qed
qed

text \<open>
  Claim C10. After \<open>init\<close>, every entry of the registry points at a tag object whose
  \<open>memberListProperty\<close> points back at that entry; different entries have different
  tags; names and member types of the entries are those of the table. Hence every
  dependency that \<open>memberMutator\<close> adds for an sdk module carries a tag that is not nil,
  and the entry this tag points back at has the member type under which the dependency
  was added and lists the dependency's name.
\<close>

theorem init_binds_tags:
  "(\<forall>p. p < length (listProperties init)
      \<longrightarrow> (\<exists>t. dependencyTag (listProperties init ! p) = Some t \<and>
               t < length (tagObjects init) \<and>
               memberListProperty (tagObjects init ! t) = p)) \<and>
   (\<forall>p q. p < length (listProperties init) \<and> q < length (listProperties init) \<and>
          dependencyTag (listProperties init ! p) = dependencyTag (listProperties init ! q)
      \<longrightarrow> p = q) \<and>
   map name (listProperties init) = map name sdkMemberListProperties \<and>
   map memberType (listProperties init) = map memberType sdkMemberListProperties \<and>
   (\<forall>g i. \<forall>d \<in> set (memberMutator init g i).
      \<exists>t m. md_tag d = Some t \<and> t < length (tagObjects init) \<and>
        memberListProperty (tagObjects init ! t) < length (listProperties init) \<and>
        sdkModule (modules g ! i) = Some m \<and>
        md_memberType d =
          memberType (listProperties init ! memberListProperty (tagObjects init ! t)) \<and>
        md_name d \<in>
          set (getter (listProperties init ! memberListProperty (tagObjects init ! t))
                 (properties m)))"
proof (intro conjI allI impI ballI)
  fix p
  assume "p < length (listProperties init)"
  from init_round_trip [OF this]
  show "\<exists>t. dependencyTag (listProperties init ! p) = Some t \<and>
            t < length (tagObjects init) \<and> memberListProperty (tagObjects init ! t) = p"
    by blast
next
  fix p q
  assume h: "p < length (listProperties init) \<and> q < length (listProperties init) \<and>
          dependencyTag (listProperties init ! p) = dependencyTag (listProperties init ! q)"
  then have "dependencyTag (listProperties init ! p) = Some p"
    and "dependencyTag (listProperties init ! q) = Some q"
    using init_round_trip [of p] init_round_trip [of q] by blast+
  with h show "p = q" by simp
next
  show "map name (listProperties init) = map name sdkMemberListProperties"
    by (simp add: init_registry sdkMemberListProperties_def)
  show "map memberType (listProperties init) = map memberType sdkMemberListProperties"
    by (simp add: init_registry sdkMemberListProperties_def)
next
  fix g i d
  assume "d \<in> set (memberMutator init g i)"
  then show "\<exists>t m. md_tag d = Some t \<and> t < length (tagObjects init) \<and>
        memberListProperty (tagObjects init ! t) < length (listProperties init) \<and>
        sdkModule (modules g ! i) = Some m \<and>
        md_memberType d =
          memberType (listProperties init ! memberListProperty (tagObjects init ! t)) \<and>
        md_name d \<in>
          set (getter (listProperties init ! memberListProperty (tagObjects init ! t))
                 (properties m))"
    by (rule memberMutator_init_tag)
qed

text \<open>
  The theorem on an sdk that lists one native library and two java libraries.
\<close>

theorem init_binds_tags_listed:
  "memberMutator init listed 0 =
     [\<lparr>md_memberType = LibrarySdkMemberType, md_tag = Some 0, md_name = ''libfoo''\<rparr>,
      \<lparr>md_memberType = ImplLibrarySdkMemberType, md_tag = Some 2, md_name = ''a''\<rparr>,
      \<lparr>md_memberType = ImplLibrarySdkMemberType, md_tag = Some 2, md_name = ''b''\<rparr>] \<and>
   map dependencyTag (listProperties init) = [Some 0, Some 1, Some 2, Some 3] \<and>
   map memberListProperty (tagObjects init) = [0, 1, 2, 3]"
proof -
  have s: "sdkModule (modules listed ! 0) =
             Some \<lparr>properties = \<lparr>Java_header_libs = [], Java_libs = [''a'', ''b''],
                                  Native_shared_libs = [''libfoo''],
                                  Stubs_sources = [], Snapshot = False\<rparr>,
                   snapshotFile = None\<rparr>"
    by (simp add: listed_def)
  have "memberMutator init listed 0 =
     [\<lparr>md_memberType = LibrarySdkMemberType, md_tag = Some 0, md_name = ''libfoo''\<rparr>,
      \<lparr>md_memberType = ImplLibrarySdkMemberType, md_tag = Some 2, md_name = ''a''\<rparr>,
      \<lparr>md_memberType = ImplLibrarySdkMemberType, md_tag = Some 2, md_name = ''b''\<rparr>]"
    by (simp add: memberMutator_init [OF s] AddDependencies_def)
  moreover from init_binds_tags
  have "\<forall>p. p < length (listProperties init)
      \<longrightarrow> (\<exists>t. dependencyTag (listProperties init ! p) = Some t \<and>
               t < length (tagObjects init) \<and>
               memberListProperty (tagObjects init ! t) = p)"
    by blast
  moreover have "map dependencyTag (listProperties init) = [Some 0, Some 1, Some 2, Some 3]"
    and "map memberListProperty (tagObjects init) = [0, 1, 2, 3]"
    by (simp_all add: init_registry)
  ultimately show ?thesis by blast
qed

end
